theory Spec2Isabelle
  imports Complex_Main "HOL-Library.Word"
begin

unbundle bit_operations_syntax

section \<open>Numbers and coordinates\<close>

text \<open>
  The JavaScript numbers of the server code (latitudes, longitudes, distances, radii) are
  modelled as real numbers: every arithmetic operation is the exact one, so rounding of
  IEEE doubles, NaN and the infinities are outside the model. JSON numbers are finite, so
  the request never carries NaN or an infinity.
\<close>

record LatLng =
  lat :: real
  lng :: real

record Viewport =
  north :: real
  south :: real
  east :: real
  west :: real

subsection \<open>Math.atan2 on exact reals\<close>

text \<open>
  \<open>Math.atan2 y x\<close> is the angle of the point \<open>(x, y)\<close> in \<open>(-pi, pi]\<close>; the
  case analysis is the one of the ECMAScript definition, without the signed zeros.
\<close>

definition atan2 :: "real \<Rightarrow> real \<Rightarrow> real" where
  "atan2 y x =
     (if 0 < x then arctan (y / x)
      else if x < 0 \<and> 0 \<le> y then arctan (y / x) + pi
      else if x < 0 then arctan (y / x) - pi
      else if 0 < y then pi / 2
      else if y < 0 then - (pi / 2)
      else 0)"

subsection \<open>calculateDistance (apps/localhub/server/place-filter)\<close>

definition calculateDistance :: "real \<Rightarrow> real \<Rightarrow> real \<Rightarrow> real \<Rightarrow> real" where
  "calculateDistance lat1 lng1 lat2 lng2 =
     (let R = 6371000;
          phi1 = (lat1 * pi) / 180;
          phi2 = (lat2 * pi) / 180;
          dphi = ((lat2 - lat1) * pi) / 180;
          dlam = ((lng2 - lng1) * pi) / 180;
          a = sin (dphi / 2) * sin (dphi / 2)
              + cos phi1 * cos phi2 * sin (dlam / 2) * sin (dlam / 2);
          c = 2 * atan2 (sqrt a) (sqrt (1 - a))
      in R * c)"

text \<open>
  The reference formula, written from the words of the specification:
  \<open>R * 2 * atan2 (sqrt h) (sqrt (1 - h))\<close> with
  \<open>h = sin\<^sup>2 (dphi / 2) + cos phi1 * cos phi2 * sin\<^sup>2 (dlam / 2)\<close>, the angles being the
  coordinates in radians and \<open>dphi\<close>, \<open>dlam\<close> the differences of the angles.
\<close>

definition radians :: "real \<Rightarrow> real" where
  "radians d = d * (pi / 180)"

definition haversine_h :: "LatLng \<Rightarrow> LatLng \<Rightarrow> real" where
  "haversine_h p q =
     (sin ((radians (lat q) - radians (lat p)) / 2))\<^sup>2
     + cos (radians (lat p)) * cos (radians (lat q))
       * (sin ((radians (lng q) - radians (lng p)) / 2))\<^sup>2"

definition haversine_reference :: "LatLng \<Rightarrow> LatLng \<Rightarrow> real" where
  "haversine_reference p q =
     6371000 * (2 * atan2 (sqrt (haversine_h p q)) (sqrt (1 - haversine_h p q)))"

subsection \<open>expandViewportFromPoints (search_places route)\<close>

text \<open>One pass of the \<open>for (const point of points)\<close> loop over the four running bounds.\<close>

definition bounds_step :: "LatLng \<Rightarrow> Viewport \<Rightarrow> Viewport" where
  "bounds_step point v =
     \<lparr> north = (if lat point > north v then lat point else north v),
       south = (if lat point < south v then lat point else south v),
       east = (if lng point > east v then lng point else east v),
       west = (if lng point < west v then lng point else west v) \<rparr>"

fun expandViewportFromPoints :: "LatLng list \<Rightarrow> Viewport option" where
  "expandViewportFromPoints [] = None"
| "expandViewportFromPoints (p0 # ps) =
     (let b = fold bounds_step (p0 # ps)
                \<lparr> north = lat p0, south = lat p0, east = lng p0, west = lng p0 \<rparr>;
          padLat = (north b - south b) * 0.05;
          padLng = (east b - west b) * 0.05
      in Some \<lparr> north = north b + padLat, south = south b - padLat,
                east = east b + padLng, west = west b - padLng \<rparr>)"

section \<open>JSON values of a request body\<close>

datatype json =
    JNull
  | JBool bool
  | JNum real
  | JStr string
  | JArr "json list"
  | JObj "(string \<times> json) list"

text \<open>JavaScript truthiness (\<open>!v\<close> is its negation) and \<open>typeof v === 'object'\<close>.\<close>

fun truthy :: "json \<Rightarrow> bool" where
  "truthy JNull = False"
| "truthy (JBool b) = b"
| "truthy (JNum x) = (x \<noteq> 0)"
| "truthy (JStr s) = (s \<noteq> [])"
| "truthy (JArr xs) = True"
| "truthy (JObj kvs) = True"

fun typeof_object :: "json \<Rightarrow> bool" where
  "typeof_object JNull = True"
| "typeof_object (JArr xs) = True"
| "typeof_object (JObj kvs) = True"
| "typeof_object v = False"

text \<open>
  Property access \<open>v.k\<close>; \<open>None\<close> is \<open>undefined\<close>. \<open>JSON.parse\<close> keeps the last of
  several members with the same key.
\<close>

fun member :: "json \<Rightarrow> string \<Rightarrow> json option" where
  "member (JObj kvs) k = map_of (rev kvs) k"
| "member v k = None"

text \<open>\<open>typeof v.k === 'number'\<close>, with the number.\<close>

definition number_member :: "json \<Rightarrow> string \<Rightarrow> real option" where
  "number_member v k = (case member v k of Some (JNum x) \<Rightarrow> Some x | _ \<Rightarrow> None)"

text \<open>A string is truthy when it is present and not empty.\<close>

fun truthy_string :: "string option \<Rightarrow> bool" where
  "truthy_string None = False"
| "truthy_string (Some s) = (s \<noteq> [])"

section \<open>HTTP responses (apps/localhub/server/utils)\<close>

datatype 'a body = ErrorBody string | JsonBody 'a

record 'a NextResponse =
  status :: nat
  payload :: "'a body"

definition badRequest :: "string \<Rightarrow> 'a NextResponse" where
  "badRequest message = \<lparr> status = 400, payload = ErrorBody message \<rparr>"

definition externalError :: "string \<Rightarrow> 'a NextResponse" where
  "externalError message = \<lparr> status = 502, payload = ErrorBody message \<rparr>"

definition serverError :: "string \<Rightarrow> 'a NextResponse" where
  "serverError message = \<lparr> status = 500, payload = ErrorBody message \<rparr>"

definition NextResponse_json :: "'a \<Rightarrow> 'a NextResponse" where
  "NextResponse_json x = \<lparr> status = 200, payload = JsonBody x \<rparr>"

section \<open>The environment: configuration, store and provider\<close>

text \<open>
  An awaited call either rejects (with the message of the error) or resolves to a value.
\<close>

datatype 'a outcome = Throws string | Resolves 'a

text \<open>The JSON documents of the provider, with the members the handlers read.\<close>

record geocode_data =
  geo_status :: string
  geo_results :: "LatLng option list option"
    \<comment> \<open>\<open>results[i].geometry.location\<close>; \<open>None\<close> where reading it is a TypeError\<close>

record details_result =
  res_place_id :: string
  res_name :: string
  res_formatted_address :: "string option"
  res_geometry_location :: "LatLng option"
  res_rating :: "real option"
  res_user_ratings_total :: "real option"
  res_formatted_phone_number :: "string option"

record details_data =
  det_status :: string
  det_result :: "details_result option"

record directions_leg =
  leg_distance_text :: "string option"
  leg_duration_text :: "string option"

record directions_route =
  route_legs :: "directions_leg list option"
  route_overview_polyline_points :: "string option"

record directions_data =
  dir_status :: string
  dir_error_message :: "string option"
  dir_routes :: "directions_route list option"

text \<open>
  The requests sent to the provider, by their query parameters (the URL text itself is
  not modelled).
\<close>

datatype provider_call =
    GeocodeCall string string
      \<comment> \<open>address, key\<close>
  | DetailsCall string string string "string option"
      \<comment> \<open>place_id, fields, key, language\<close>
  | DirectionsCall LatLng LatLng string string "string option"
      \<comment> \<open>origin, destination, mode, key, language\<close>

record env =
  GOOGLE_PLACES_API_KEY :: "string option"
  GOOGLE_DIRECTIONS_API_KEY :: "string option"
  business_findMany :: "string list outcome"
    \<comment> \<open>the \<open>placeId\<close> column of \<open>prisma.business.findMany\<close>\<close>
  geocode_fetch :: "provider_call \<Rightarrow> geocode_data outcome"
  details_fetch :: "provider_call \<Rightarrow> details_data outcome"
  directions_fetch :: "provider_call \<Rightarrow> directions_data outcome"

subsection \<open>getAllBusinessPlaceIds (apps/localhub/server/place-filter)\<close>

definition getAllBusinessPlaceIds :: "env \<Rightarrow> string list outcome" where
  "getAllBusinessPlaceIds e = business_findMany e"

section \<open>The search_places tool\<close>

record Provider =
  source :: string
  placeId :: "string option"

record Place =
  ident :: string
  name :: string
  address :: string
  phone :: "string option"
  rating :: "real option"
  userRatingsTotal :: "real option"
  location :: LatLng
  provider :: Provider

record SearchData =
  query :: string
  resolvedArea :: string
  center :: LatLng
  viewport :: Viewport

record SearchOutput =
  search :: SearchData
  places :: "Place list"

text \<open>
  The request body at its declared types; \<open>None\<close> is an absent member. The member
  \<open>where\<close> is named \<open>sp_where\<close>.
\<close>

record search_body =
  sp_query :: "string option"
  sp_where :: "string option"
  sp_center :: "LatLng option"
  sp_radius_m :: "real option"
  sp_language :: "string option"

subsection \<open>geocodeWhere\<close>

text \<open>
  The result is \<open>Inl message\<close> when the function throws, else the coordinate or \<open>null\<close>,
  together with the provider calls made.
\<close>

definition geocodeWhere ::
  "env \<Rightarrow> string option \<Rightarrow> (string + LatLng option) \<times> provider_call list" where
  "geocodeWhere e wh =
     (case wh of
        None \<Rightarrow> (Inr None, [])
      | Some w \<Rightarrow>
          if w = [] then (Inr None, [])
          else
            (case GOOGLE_PLACES_API_KEY e of
               None \<Rightarrow> (Inl ''GOOGLE_PLACES_API_KEY not configured'', [])
             | Some apiKey \<Rightarrow>
                 if apiKey = [] then (Inl ''GOOGLE_PLACES_API_KEY not configured'', [])
                 else
                   (let call = GeocodeCall w apiKey
                    in (case geocode_fetch e call of
                          Throws err \<Rightarrow> (Inr None, [call])
                        | Resolves data \<Rightarrow>
                            if geo_status data = ''OK''
                            then (case geo_results data of
                                    Some (Some loc # rest) \<Rightarrow>
                                      (Inr (Some \<lparr> lat = lat loc, lng = lng loc \<rparr>), [call])
                                  | _ \<Rightarrow> (Inr None, [call]))
                            else (Inr None, [call])))))"

subsection \<open>The handler POST of search_places\<close>

text \<open>
  The test \<open>center && typeof center === 'object' && center.lat && center.lng\<close> is one
  of truthiness: a member equal to 0 fails it.
\<close>

definition usable_center :: "LatLng option \<Rightarrow> LatLng option" where
  "usable_center c =
     (case c of
        None \<Rightarrow> None
      | Some p \<Rightarrow> if lat p \<noteq> 0 \<and> lng p \<noteq> 0 then Some p else None)"

text \<open>
  Resolution of the search origin: \<open>Inl\<close> is the response returned early, \<open>Inr\<close> the pair
  \<open>(resolvedCenter, resolvedArea)\<close>. An error thrown by \<open>geocodeWhere\<close> reaches the
  \<open>catch\<close> of the handler.
\<close>

definition resolve_origin ::
  "env \<Rightarrow> search_body \<Rightarrow> (SearchOutput NextResponse + LatLng \<times> string) \<times> provider_call list" where
  "resolve_origin e req =
     (case usable_center (sp_center req) of
        Some c \<Rightarrow> (Inr (\<lparr> lat = lat c, lng = lng c \<rparr>, []), [])
      | None \<Rightarrow>
          (case sp_where req of
             None \<Rightarrow>
               (Inl (badRequest
                  ''Either center coordinates or where location string must be provided''), [])
           | Some w \<Rightarrow>
               if w = []
               then (Inl (badRequest
                  ''Either center coordinates or where location string must be provided''), [])
               else
                 (case geocodeWhere e (Some w) of
                    (Inl message, calls) \<Rightarrow> (Inl (serverError message), calls)
                  | (Inr None, calls) \<Rightarrow>
                      (Inl (badRequest
                         ''Could not resolve a search area from the provided location''), calls)
                  | (Inr (Some resolvedCenter), calls) \<Rightarrow> (Inr (resolvedCenter, w), calls))))"

definition searchRadius :: "real option \<Rightarrow> real" where
  "searchRadius radius_m =
     max 100 (min 50000 (case radius_m of None \<Rightarrow> 40000 | Some r \<Rightarrow> r))"

text \<open>The viewport of 0.01 degrees around the origin, used when there is no place.\<close>

definition fixed_viewport :: "LatLng \<Rightarrow> Viewport" where
  "fixed_viewport resolvedCenter =
     \<lparr> north = lat resolvedCenter + 0.01, south = lat resolvedCenter - 0.01,
       east = lng resolvedCenter + 0.01, west = lng resolvedCenter - 0.01 \<rparr>"

definition details_call :: "string \<Rightarrow> string option \<Rightarrow> string \<Rightarrow> provider_call" where
  "details_call apiKey language pid =
     DetailsCall pid ''place_id,name,formatted_address,geometry,rating,user_ratings_total''
       apiKey (if truthy_string language then language else None)"

text \<open>
  The callback of \<open>databasePlaceIds.map\<close>: the place with its distance, or \<open>null\<close>.
\<close>

definition fetch_place ::
  "env \<Rightarrow> LatLng \<Rightarrow> real \<Rightarrow> string \<Rightarrow> string option \<Rightarrow> string \<Rightarrow> (Place \<times> real) option" where
  "fetch_place e resolvedCenter radius apiKey language pid =
     (case details_fetch e (details_call apiKey language pid) of
        Throws err \<Rightarrow> None
      | Resolves data \<Rightarrow>
          if det_status data = ''OK''
          then (case det_result data of
                  None \<Rightarrow> None
                | Some place \<Rightarrow>
                    (case res_geometry_location place of
                       None \<Rightarrow> None
                     | Some loc \<Rightarrow>
                         (let distance = calculateDistance (lat resolvedCenter) (lng resolvedCenter)
                                           (lat loc) (lng loc)
                          in if distance \<le> radius
                             then Some
                               (\<lparr> ident = res_place_id place,
                                  name = res_name place,
                                  address = (case res_formatted_address place of
                                               None \<Rightarrow> [] | Some a \<Rightarrow> a),
                                  phone = None,
                                  rating = res_rating place,
                                  userRatingsTotal = res_user_ratings_total place,
                                  location = \<lparr> lat = lat loc, lng = lng loc \<rparr>,
                                  provider = \<lparr> source = ''google_places'',
                                               placeId = Some (res_place_id place) \<rparr> \<rparr>,
                                distance)
                             else None)))
          else None)"

definition search_places_POST ::
  "env \<Rightarrow> search_body \<Rightarrow> SearchOutput NextResponse \<times> provider_call list" where
  "search_places_POST e req =
     (case sp_query req of
        None \<Rightarrow> (badRequest ''Missing required parameter: query'', [])
      | Some q \<Rightarrow>
          if q = [] then (badRequest ''Missing required parameter: query'', [])
          else
            (case resolve_origin e req of
               (Inl response, calls) \<Rightarrow> (response, calls)
             | (Inr (resolvedCenter, area), calls) \<Rightarrow>
                 (case GOOGLE_PLACES_API_KEY e of
                    None \<Rightarrow> (serverError ''GOOGLE_PLACES_API_KEY not configured'', calls)
                  | Some apiKey \<Rightarrow>
                      if apiKey = []
                      then (serverError ''GOOGLE_PLACES_API_KEY not configured'', calls)
                      else
                        (case getAllBusinessPlaceIds e of
                           Throws err \<Rightarrow> (serverError err, calls)
                         | Resolves databasePlaceIds \<Rightarrow>
                             if databasePlaceIds = []
                             then (NextResponse_json
                                     \<lparr> search = \<lparr> query = q, resolvedArea = area,
                                                  center = resolvedCenter,
                                                  viewport = fixed_viewport resolvedCenter \<rparr>,
                                       places = [] \<rparr>, calls)
                             else
                               (let results = map (fetch_place e resolvedCenter
                                                     (searchRadius (sp_radius_m req)) apiKey
                                                     (sp_language req)) databasePlaceIds;
                                    validPlaces = List.map_filter (\<lambda>r. r) results;
                                    sorted_places = sort_key snd validPlaces;
                                    filteredPlaces = map fst sorted_places;
                                    placeLocations = map location filteredPlaces;
                                    vp = (case expandViewportFromPoints placeLocations of
                                            None \<Rightarrow> fixed_viewport resolvedCenter
                                          | Some v \<Rightarrow> v)
                                in (NextResponse_json
                                      \<lparr> search = \<lparr> query = q, resolvedArea = area,
                                                   center = resolvedCenter, viewport = vp \<rparr>,
                                        places = filteredPlaces \<rparr>,
                                    calls @ map (details_call apiKey (sp_language req))
                                              databasePlaceIds))))))"

section \<open>The get_directions tool\<close>

text \<open>
  The coordinates of the request are passed on as they were received; the link to the
  maps site is kept by its parts (origin, destination, travel mode).
\<close>

datatype maps_url = MapsDirUrl LatLng LatLng string

record DirectionsData =
  dir_from :: json
  dir_to :: json
  mode :: string
  polyline :: string
  distanceText :: string
  durationText :: string
  googleMapsUrl :: maps_url

record DirectionsOutput =
  directions :: DirectionsData

record directions_body =
  gd_to_coords :: "json option"
  gd_from_coords :: "json option"
  gd_mode :: "string option"
  gd_language :: "string option"

text \<open>
  The validation of one coordinate argument,
  \<open>!c || typeof c !== 'object' || typeof c.lat !== 'number' || typeof c.lng !== 'number'\<close>:
  \<open>None\<close> when the test rejects it, else the argument with its two numbers.
\<close>

definition checked_coords :: "json option \<Rightarrow> (json \<times> LatLng) option" where
  "checked_coords c =
     (case c of
        None \<Rightarrow> None
      | Some v \<Rightarrow>
          if \<not> truthy v \<or> \<not> typeof_object v then None
          else (case number_member v ''lat'' of
                  None \<Rightarrow> None
                | Some a \<Rightarrow>
                    (case number_member v ''lng'' of
                       None \<Rightarrow> None
                     | Some b \<Rightarrow> Some (v, \<lparr> lat = a, lng = b \<rparr>))))"

text \<open>\<open>a || b\<close> on two optional strings, and \<open>s || d\<close> with a default.\<close>

definition or_else :: "string option \<Rightarrow> string option \<Rightarrow> string option" where
  "or_else a b = (if truthy_string a then a else b)"

definition or_default :: "string option \<Rightarrow> string \<Rightarrow> string" where
  "or_default a d = (case a of None \<Rightarrow> d | Some s \<Rightarrow> if s = [] then d else s)"

text \<open>The handler from the check of the provider's status on.\<close>

definition directions_response ::
  "json \<times> LatLng \<Rightarrow> json \<times> LatLng \<Rightarrow> string \<Rightarrow> directions_data \<Rightarrow> DirectionsOutput NextResponse" where
  "directions_response from_coords to_coords travel directionsData =
     (if dir_status directionsData \<noteq> ''OK''
      then externalError
             (''Directions API error: '' @ dir_status directionsData
              @ (case dir_error_message directionsData of
                   None \<Rightarrow> []
                 | Some m \<Rightarrow> if m = [] then [] else '' - '' @ m))
      else
        (case dir_routes directionsData of
           Some (route # other_routes) \<Rightarrow>
             (case route_legs route of
                Some (leg # other_legs) \<Rightarrow>
                  (case route_overview_polyline_points route of
                     None \<Rightarrow> externalError ''No polyline found in route''
                   | Some pts \<Rightarrow>
                       if pts = [] then externalError ''No polyline found in route''
                       else NextResponse_json
                         \<lparr> directions =
                             \<lparr> dir_from = fst from_coords,
                               dir_to = fst to_coords,
                               mode = travel,
                               polyline = pts,
                               distanceText =
                                 or_default (leg_distance_text leg) ''Unknown distance'',
                               durationText =
                                 or_default (leg_duration_text leg) ''Unknown duration'',
                               googleMapsUrl =
                                 MapsDirUrl (snd from_coords) (snd to_coords) travel \<rparr> \<rparr>)
              | _ \<Rightarrow> externalError ''No legs found in route'')
         | _ \<Rightarrow> externalError ''No routes found in Directions API response''))"

text \<open>The request to the provider; the language is sent only when it is given.\<close>

definition directions_call ::
  "LatLng \<Rightarrow> LatLng \<Rightarrow> string \<Rightarrow> string \<Rightarrow> string option \<Rightarrow> provider_call" where
  "directions_call origin destination travel apiKey language =
     DirectionsCall origin destination travel apiKey
       (if truthy_string language then language else None)"

definition get_directions_POST ::
  "env \<Rightarrow> directions_body \<Rightarrow> DirectionsOutput NextResponse \<times> provider_call list" where
  "get_directions_POST e req =
     (let travel = (case gd_mode req of None \<Rightarrow> ''driving'' | Some m \<Rightarrow> m)
      in case checked_coords (gd_to_coords req) of
           None \<Rightarrow>
             (badRequest ''Missing or invalid required parameter: to_coords (must be an object with lat and lng numbers)'', [])
         | Some to_coords \<Rightarrow>
             (case checked_coords (gd_from_coords req) of
                None \<Rightarrow>
                  (badRequest ''Missing or invalid required parameter: from_coords (must be an object with lat and lng numbers)'', [])
              | Some from_coords \<Rightarrow>
                  (case or_else (GOOGLE_DIRECTIONS_API_KEY e) (GOOGLE_PLACES_API_KEY e) of
                     None \<Rightarrow> (serverError ''GOOGLE_DIRECTIONS_API_KEY not configured'', [])
                   | Some apiKey \<Rightarrow>
                       if apiKey = []
                       then (serverError ''GOOGLE_DIRECTIONS_API_KEY not configured'', [])
                       else
                         (let call = directions_call (snd from_coords) (snd to_coords) travel
                                       apiKey (gd_language req)
                          in case directions_fetch e call of
                               Throws err \<Rightarrow> (serverError err, [call])
                             | Resolves directionsData \<Rightarrow>
                                 (directions_response from_coords to_coords travel directionsData,
                                  [call])))))"

section \<open>The polyline decoder (apps/localhub/web/src/component)\<close>

text \<open>
  The bitwise operators of JavaScript work on 32-bit integers and take the shift count
  modulo 32, so \<open>result\<close> is a 32-bit word; \<open>>>\<close> is the arithmetic shift. The sums
  \<open>lat\<close> and \<open>lng\<close> are ordinary numbers and are kept as integers. The string is
  consumed from the left, so the index of the source is the length of what was read.
  A character is one of the 256 of HOL, which cover the alphabet of an encoded polyline
  (codes 63 to 126).
\<close>

text \<open>
  The loop \<open>do { b = str.charCodeAt(index++) - 63; result |= (b & 0x1f) << shift;
  shift += 5 } while (b >= 0x20)\<close>. Past the end of the string \<open>charCodeAt\<close> is NaN:
  the word is unchanged and the loop stops.
\<close>

fun read_chunks :: "string \<Rightarrow> nat \<Rightarrow> 32 word \<Rightarrow> 32 word \<times> string" where
  "read_chunks [] shift result = (result, [])"
| "read_chunks (c # cs) shift result =
     (let b = int (of_char c :: nat) - 63;
          result' = result OR push_bit (shift mod 32) (word_of_int (b AND 0x1f))
      in if b \<ge> 0x20 then read_chunks cs (shift + 5) result' else (result', cs))"

text \<open>\<open>(result & 1) ? ~(result >> 1) : (result >> 1)\<close>, read as a signed number.\<close>

definition delta_of :: "32 word \<Rightarrow> int" where
  "delta_of result =
     (if result AND 1 \<noteq> 0 then sint (NOT (signed_drop_bit 1 result))
      else sint (signed_drop_bit 1 result))"

lemma read_chunks_length: "length (snd (read_chunks s shift r)) \<le> length s"
  by (induction s arbitrary: shift r) (auto simp: Let_def le_SucI)

function decode_loop :: "string \<Rightarrow> int \<Rightarrow> int \<Rightarrow> LatLng list" where
  "decode_loop str lat_acc lng_acc =
     (if str = [] then []
      else
        (let (r1, s1) = read_chunks str 0 0;
             lat_new = lat_acc + delta_of r1;
             (r2, s2) = read_chunks s1 0 0;
             lng_new = lng_acc + delta_of r2
         in \<lparr> lat = real_of_int lat_new / 100000, lng = real_of_int lng_new / 100000 \<rparr>
            # decode_loop s2 lat_new lng_new))"
  by pat_completeness auto

lemma read_chunks_shorter: "s \<noteq> [] \<Longrightarrow> length (snd (read_chunks s shift r)) < length s"
proof (cases s)
  case Nil
  then show "s \<noteq> [] \<Longrightarrow> ?thesis" by simp
next
  case (Cons c cs)
  show ?thesis
    using read_chunks_length [of cs "shift + 5"] unfolding Cons
    by (simp add: Let_def less_Suc_eq_le)
qed

termination decode_loop
proof (relation "measure (\<lambda>(str, lat_acc, lng_acc). length str)")
  show "wf (measure (\<lambda>(str, lat_acc, lng_acc). length str))" by simp
next
  fix str :: string and lat_acc lng_acc :: int and x :: "32 word \<times> string"
    and r1 s1 lat_new and xa :: "32 word \<times> string" and r2 s2 lng_new
  assume ne: "str \<noteq> []" and x: "x = read_chunks str 0 0" and x1: "(r1, s1) = x"
    and xa: "xa = read_chunks s1 0 0" and x2: "(r2, s2) = xa"
  have "length s1 < length str"
    using read_chunks_shorter [OF ne, of 0 0] x x1 by (metis snd_conv)
  moreover have "length s2 \<le> length s1"
    using read_chunks_length [of s1 0 0] xa x2 by (metis snd_conv)
  ultimately show "((s2, lat_new, lng_new), str, lat_acc, lng_acc)
      \<in> measure (\<lambda>(str, lat_acc, lng_acc). length str)"
    by simp
qed

declare decode_loop.simps [simp del]

definition decodePolyline :: "string \<Rightarrow> LatLng list" where
  "decodePolyline str = decode_loop str 0 0"

section \<open>The reference polyline encoder\<close>

text \<open>
  Modelled from the spec: the encoder that produces the strings the decoder consumes is
  not part of the repository. It is the published encoded-polyline format: each
  coordinate is multiplied by \<open>1e5\<close> and rounded, the difference to the previous point is
  shifted left by one bit and inverted when negative, and the result is written in
  groups of five bits, lowest first, each but the last with the bit \<open>0x20\<close> set, each
  plus 63 as a character.
\<close>

definition zigzag :: "int \<Rightarrow> nat" where
  "zigzag v = nat (if v < 0 then - (2 * v) - 1 else 2 * v)"

text \<open>
  Modelled from the spec: the groups of five bits of one value, lowest first, as
  characters.
\<close>

function encode_chunks :: "nat \<Rightarrow> string" where
  "encode_chunks n =
     (if n \<ge> 32 then char_of (32 + n mod 32 + 63) # encode_chunks (n div 32)
      else [char_of (n + 63)])"
  by pat_completeness auto
termination
  by (relation "measure (\<lambda>n. n)") auto

declare encode_chunks.simps [simp del]

text \<open>Modelled from the spec: the characters of one signed difference.\<close>

definition encode_value :: "int \<Rightarrow> string" where
  "encode_value v = encode_chunks (zigzag v)"

text \<open>
  Modelled from the spec: the points in order, each as the differences of its rounded
  latitude and longitude to those of the point before (to 0 for the first point).
\<close>

fun encode_from :: "int \<Rightarrow> int \<Rightarrow> LatLng list \<Rightarrow> string" where
  "encode_from prev_lat prev_lng [] = []"
| "encode_from prev_lat prev_lng (p # ps) =
     (let lat5 = round (lat p * 100000);
          lng5 = round (lng p * 100000)
      in encode_value (lat5 - prev_lat) @ encode_value (lng5 - prev_lng)
         @ encode_from lat5 lng5 ps)"

text \<open>Modelled from the spec: the encoded polyline of a path.\<close>

definition encodePolyline :: "LatLng list \<Rightarrow> string" where
  "encodePolyline ps = encode_from 0 0 ps"

section \<open>Notions used to state the properties\<close>

text \<open>
  The list \<open>validPlaces\<close> of the search handler after its sort: the places found within
  the radius, each with its distance.
\<close>

definition found_places ::
  "env \<Rightarrow> search_body \<Rightarrow> LatLng \<Rightarrow> string \<Rightarrow> string list \<Rightarrow> (Place \<times> real) list" where
  "found_places e req c apiKey ids =
     sort_key snd (List.map_filter (\<lambda>r. r)
       (map (fetch_place e c (searchRadius (sp_radius_m req)) apiKey (sp_language req)) ids))"

text \<open>The haversine distance of a place of the response from an origin.\<close>

definition distance_from :: "LatLng \<Rightarrow> Place \<Rightarrow> real" where
  "distance_from origin p =
     calculateDistance (lat origin) (lng origin) (lat (location p)) (lng (location p))"

text \<open>
  A lookup of place details that fails: the fetch throws, the status is not OK, or the
  answer has no geometry location.
\<close>

definition lookup_failed :: "details_data outcome \<Rightarrow> bool" where
  "lookup_failed r =
     (case r of
        Throws err \<Rightarrow> True
      | Resolves data \<Rightarrow>
          det_status data \<noteq> ''OK''
          \<or> (case det_result data of
                None \<Rightarrow> True
              | Some place \<Rightarrow> res_geometry_location place = None))"

fun is_details_call :: "provider_call \<Rightarrow> bool" where
  "is_details_call (DetailsCall pid flds key language) = True"
| "is_details_call call = False"

text \<open>
  A coordinate argument as the tool description asks for it: an object whose members
  \<open>lat\<close> and \<open>lng\<close> are numbers.
\<close>

fun is_coordinate_object :: "json option \<Rightarrow> bool" where
  "is_coordinate_object (Some (JObj kvs)) =
     (case (map_of (rev kvs) ''lat'', map_of (rev kvs) ''lng'') of
        (Some (JNum a), Some (JNum b)) \<Rightarrow> True
      | _ \<Rightarrow> False)"
| "is_coordinate_object c = False"

text \<open>The first route, its first leg and its overview polyline, where the answer has them.\<close>

definition first_route :: "directions_data \<Rightarrow> directions_route option" where
  "first_route d = (case dir_routes d of Some (r # rs) \<Rightarrow> Some r | _ \<Rightarrow> None)"

definition first_leg :: "directions_route \<Rightarrow> directions_leg option" where
  "first_leg r = (case route_legs r of Some (l # ls) \<Rightarrow> Some l | _ \<Rightarrow> None)"

text \<open>
  A value that is a multiple of \<open>1e-5\<close> degrees, and a coordinate of the WGS84 datum:
  latitude between -90 and 90, longitude between -180 and 180 degrees.
\<close>

definition on_grid :: "real \<Rightarrow> bool" where
  "on_grid x \<longleftrightarrow> real_of_int (round (x * 100000)) = x * 100000"

definition wgs84 :: "LatLng \<Rightarrow> bool" where
  "wgs84 p \<longleftrightarrow> \<bar>lat p\<bar> \<le> 90 \<and> \<bar>lng p\<bar> \<le> 180"

section \<open>An example deployment\<close>

text \<open>
  Four curated places and a search around the point \<open>(90, 45)\<close>: A lies a tenth of a
  degree of latitude away (about 11 km), B one degree (about 111 km), the lookup of C
  fails, and D lies at the origin. The provider would supply a phone number for each
  place it knows.
\<close>

definition example_geocode :: "provider_call \<Rightarrow> geocode_data outcome" where
  "example_geocode call =
     Resolves \<lparr> geo_status = ''OK'', geo_results = Some [Some \<lparr> lat = 90, lng = 45 \<rparr>] \<rparr>"

fun example_details :: "provider_call \<Rightarrow> details_data outcome" where
  "example_details (DetailsCall pid flds key language) =
     (if pid = ''A''
      then Resolves \<lparr> det_status = ''OK'',
                      det_result = Some
                        \<lparr> res_place_id = ''A'', res_name = ''Cafe A'',
                          res_formatted_address = Some ''1 Main St'',
                          res_geometry_location = Some \<lparr> lat = 89.9, lng = 45 \<rparr>,
                          res_rating = Some 4.5, res_user_ratings_total = Some 100,
                          res_formatted_phone_number = Some ''555-0100'' \<rparr> \<rparr>
      else if pid = ''B''
      then Resolves \<lparr> det_status = ''OK'',
                      det_result = Some
                        \<lparr> res_place_id = ''B'', res_name = ''Cafe B'',
                          res_formatted_address = None,
                          res_geometry_location = Some \<lparr> lat = 89, lng = 45 \<rparr>,
                          res_rating = None, res_user_ratings_total = None,
                          res_formatted_phone_number = Some ''555-0101'' \<rparr> \<rparr>
      else if pid = ''D''
      then Resolves \<lparr> det_status = ''OK'',
                      det_result = Some
                        \<lparr> res_place_id = ''D'', res_name = ''Cafe D'',
                          res_formatted_address = None,
                          res_geometry_location = Some \<lparr> lat = 90, lng = 45 \<rparr>,
                          res_rating = None, res_user_ratings_total = None,
                          res_formatted_phone_number = Some ''555-0103'' \<rparr> \<rparr>
      else Throws ''fetch failed'')"
| "example_details call = Throws ''not a details request''"

definition example_directions :: "provider_call \<Rightarrow> directions_data outcome" where
  "example_directions call =
     Resolves \<lparr> dir_status = ''ZERO_RESULTS'', dir_error_message = None, dir_routes = None \<rparr>"

definition example_env :: env where
  "example_env =
     \<lparr> GOOGLE_PLACES_API_KEY = Some ''test-api-key'',
       GOOGLE_DIRECTIONS_API_KEY = None,
       business_findMany = Resolves [''A'', ''B'', ''C'', ''D''],
       geocode_fetch = example_geocode,
       details_fetch = example_details,
       directions_fetch = example_directions \<rparr>"

definition example_search :: search_body where
  "example_search =
     \<lparr> sp_query = Some ''coffee'', sp_where = Some ''Dublin'',
       sp_center = Some \<lparr> lat = 90, lng = 45 \<rparr>,
       sp_radius_m = None, sp_language = None \<rparr>"

definition example_place_A :: Place where
  "example_place_A =
     \<lparr> ident = ''A'', name = ''Cafe A'', address = ''1 Main St'', phone = None,
       rating = Some 4.5, userRatingsTotal = Some 100,
       location = \<lparr> lat = 89.9, lng = 45 \<rparr>,
       provider = \<lparr> source = ''google_places'', placeId = Some ''A'' \<rparr> \<rparr>"

definition example_place_D :: Place where
  "example_place_D =
     \<lparr> ident = ''D'', name = ''Cafe D'', address = [], phone = None,
       rating = None, userRatingsTotal = None,
       location = \<lparr> lat = 90, lng = 45 \<rparr>,
       provider = \<lparr> source = ''google_places'', placeId = Some ''D'' \<rparr> \<rparr>"

definition example_output :: SearchOutput where
  "example_output =
     \<lparr> search = \<lparr> query = ''coffee'', resolvedArea = [],
                  center = \<lparr> lat = 90, lng = 45 \<rparr>,
                  viewport = \<lparr> north = 90.005, south = 89.895, east = 45, west = 45 \<rparr> \<rparr>,
       places = [example_place_D, example_place_A] \<rparr>"

definition example_coords :: "real \<Rightarrow> real \<Rightarrow> json" where
  "example_coords a b = JObj [(''lat'', JNum a), (''lng'', JNum b)]"

definition example_directions_body :: directions_body where
  "example_directions_body =
     \<lparr> gd_to_coords = Some (example_coords 53.3448 (- 6.2548)),
       gd_from_coords = Some (example_coords 53.3498 (- 6.2603)),
       gd_mode = Some ''driving'', gd_language = None \<rparr>"

section \<open>Great-circle distance\<close>

text \<open>
  In exact arithmetic \<open>h\<close> is half of one minus the cosine of the central angle, so it
  lies between 0 and 1 for all inputs: both square roots of the formula are taken of
  non-negative numbers.
\<close>

lemma haversine_h_alt:
  "haversine_h p q =
     (1 - (sin (radians (lat p)) * sin (radians (lat q))
           + cos (radians (lat p)) * cos (radians (lat q)) * cos (radians (lng q) - radians (lng p)))) / 2"
proof -
  have s2: "(sin (x / 2))\<^sup>2 = (1 - cos x) / 2" for x :: real
    using cos_double_sin [of "x / 2"] by simp
  show ?thesis
    unfolding haversine_h_def s2 cos_diff [of "radians (lat q)"]
    by (simp add: field_simps)
qed

lemma unit_dot_bound:
  fixes a b c :: real
  shows "\<bar>sin a * sin b + cos a * cos b * cos c\<bar> \<le> 1"
proof -
  have c1: "\<bar>cos c\<bar> \<le> 1" by (rule abs_cos_le_one)
  have "\<bar>sin a * sin b + cos a * cos b * cos c\<bar> \<le> \<bar>sin a * sin b\<bar> + \<bar>cos a * cos b * cos c\<bar>"
    by (rule abs_triangle_ineq)
  also have "\<dots> = \<bar>sin a\<bar> * \<bar>sin b\<bar> + \<bar>cos a\<bar> * \<bar>cos b\<bar> * \<bar>cos c\<bar>"
    by (simp add: abs_mult)
  also have "\<dots> \<le> \<bar>sin a\<bar> * \<bar>sin b\<bar> + \<bar>cos a\<bar> * \<bar>cos b\<bar> * 1"
    using c1 by (intro add_left_mono mult_left_mono) simp_all
  also have "\<dots> \<le> 1"
  proof -
    have "0 \<le> (\<bar>sin a\<bar> - \<bar>sin b\<bar>)\<^sup>2 + (\<bar>cos a\<bar> - \<bar>cos b\<bar>)\<^sup>2" by simp
    also have "\<dots> = (sin a)\<^sup>2 + (cos a)\<^sup>2 + ((sin b)\<^sup>2 + (cos b)\<^sup>2)
                      - 2 * (\<bar>sin a\<bar> * \<bar>sin b\<bar> + \<bar>cos a\<bar> * \<bar>cos b\<bar>)"
      by (simp add: power2_diff algebra_simps)
    also have "\<dots> = 2 - 2 * (\<bar>sin a\<bar> * \<bar>sin b\<bar> + \<bar>cos a\<bar> * \<bar>cos b\<bar>)"
      by simp
    finally show ?thesis by simp
  qed
  finally show ?thesis .
qed

lemma haversine_h_range: "0 \<le> haversine_h p q \<and> haversine_h p q \<le> 1"
  unfolding haversine_h_alt
  using unit_dot_bound [of "radians (lat p)" "radians (lat q)" "radians (lng q) - radians (lng p)"]
  by (simp add: abs_le_iff)

lemma calculateDistance_eq_reference:
  "calculateDistance (lat p) (lng p) (lat q) (lng q) = haversine_reference p q"
proof -
  have d: "radians (y - x) = radians y - radians x" for x y :: real
    by (simp add: radians_def left_diff_distrib)
  have r: "(x * pi) / 180 = radians x" for x :: real
    by (simp add: radians_def)
  show ?thesis
    unfolding calculateDistance_def haversine_reference_def haversine_h_def Let_def r d
    by (simp add: power2_eq_square algebra_simps)
qed

lemma haversine_h_sym: "haversine_h p q = haversine_h q p"
proof -
  have m: "(sin ((x - y) / 2))\<^sup>2 = (sin ((y - x) / 2))\<^sup>2" for x y :: real
  proof -
    have "(x - y) / 2 = - ((y - x) / 2)" by (simp add: field_simps)
    then have "sin ((x - y) / 2) = - sin ((y - x) / 2)" by (metis sin_minus)
    then show ?thesis by simp
  qed
  show ?thesis unfolding haversine_h_def m [of "radians (lat q)"] m [of "radians (lng q)"]
    by (simp add: mult.commute)
qed

lemma haversine_h_refl: "haversine_h p p = 0"
  by (simp add: haversine_h_def)

lemma atan2_0_1: "atan2 0 1 = 0"
  by (simp add: atan2_def)

text \<open>
  Claim C7. For all coordinates \<open>a\<close> and \<open>b\<close>, \<open>calculateDistance\<close> equals the
  reference haversine formula with mean Earth radius 6371000 m; the distance from a
  coordinate to itself is 0, and the distance is symmetric. (Numbers are exact reals.)
\<close>

theorem calculateDistance_haversine:
  "calculateDistance (lat a) (lng a) (lat b) (lng b) = haversine_reference a b
   \<and> calculateDistance (lat a) (lng a) (lat a) (lng a) = 0
   \<and> calculateDistance (lat a) (lng a) (lat b) (lng b)
       = calculateDistance (lat b) (lng b) (lat a) (lng a)"
  unfolding calculateDistance_eq_reference
  using haversine_h_sym [of a b]
  by (simp add: haversine_reference_def haversine_h_refl atan2_0_1)

section \<open>Bounding box\<close>

lemma fold_bounds_step:
  "fold bounds_step ps v =
     \<lparr> north = fold max (map lat ps) (north v),
       south = fold min (map lat ps) (south v),
       east = fold max (map lng ps) (east v),
       west = fold min (map lng ps) (west v) \<rparr>"
proof (induction ps arbitrary: v)
  case Nil
  show ?case by simp
next
  case (Cons p ps)
  have "bounds_step p v =
      \<lparr> north = max (lat p) (north v), south = min (lat p) (south v),
        east = max (lng p) (east v), west = min (lng p) (west v) \<rparr>"
    unfolding bounds_step_def by (auto simp: max_def min_def)
  then show ?case by (simp add: Cons.IH)
qed

lemma fold_max_Max: "fold max (map f (p # ps)) (f p) = Max (f ` set (p # ps))"
proof -
  have "Max (set (f p # map f (p # ps))) = fold max (map f (p # ps)) (f p)"
    by (rule Max.set_eq_fold)
  then show ?thesis by simp
qed

lemma fold_min_Min: "fold min (map f (p # ps)) (f p) = Min (f ` set (p # ps))"
proof -
  have "Min (set (f p # map f (p # ps))) = fold min (map f (p # ps)) (f p)"
    by (rule Min.set_eq_fold)
  then show ?thesis by simp
qed

lemma expandViewport_Cons:
  "expandViewportFromPoints (p # ps) =
     Some \<lparr> north = Max (lat ` set (p # ps)) + (Max (lat ` set (p # ps)) - Min (lat ` set (p # ps))) * 0.05,
            south = Min (lat ` set (p # ps)) - (Max (lat ` set (p # ps)) - Min (lat ` set (p # ps))) * 0.05,
            east = Max (lng ` set (p # ps)) + (Max (lng ` set (p # ps)) - Min (lng ` set (p # ps))) * 0.05,
            west = Min (lng ` set (p # ps)) - (Max (lng ` set (p # ps)) - Min (lng ` set (p # ps))) * 0.05 \<rparr>"
  unfolding expandViewportFromPoints.simps fold_bounds_step Let_def
  using fold_max_Max [of lat p ps] fold_max_Max [of lng p ps]
        fold_min_Min [of lat p ps] fold_min_Min [of lng p ps]
  by simp

lemma Min_le_Max_image: "finite S \<Longrightarrow> S \<noteq> {} \<Longrightarrow> Min (f ` S) \<le> (Max (f ` S) :: real)"
  by (meson Max_in Min_le finite_imageI image_is_empty)

text \<open>
  Claim C8. The bounding box of an empty list of points is \<open>null\<close>; for a non-empty list
  it is the minimum and maximum latitude and longitude, each moved outwards by 5 percent
  of its span, so north is at least the maximum latitude, south at most the minimum
  latitude, east at least the maximum longitude and west at most the minimum longitude.
\<close>

theorem expandViewport_bounds:
  "expandViewportFromPoints [] = None \<and>
   (points \<noteq> [] \<longrightarrow>
     (\<exists>v. expandViewportFromPoints points = Some v
        \<and> north v = Max (lat ` set points) + (Max (lat ` set points) - Min (lat ` set points)) * 0.05
        \<and> south v = Min (lat ` set points) - (Max (lat ` set points) - Min (lat ` set points)) * 0.05
        \<and> east v = Max (lng ` set points) + (Max (lng ` set points) - Min (lng ` set points)) * 0.05
        \<and> west v = Min (lng ` set points) - (Max (lng ` set points) - Min (lng ` set points)) * 0.05
        \<and> north v \<ge> Max (lat ` set points) \<and> south v \<le> Min (lat ` set points)
        \<and> east v \<ge> Max (lng ` set points) \<and> west v \<le> Min (lng ` set points)))"
proof (cases points)
  case Nil
  then show ?thesis by simp
next
  case (Cons p ps)
  have la: "Min (lat ` set points) \<le> Max (lat ` set points)"
    using Cons by (intro Min_le_Max_image) simp_all
  have lo: "Min (lng ` set points) \<le> Max (lng ` set points)"
    using Cons by (intro Min_le_Max_image) simp_all
  let ?v = "the (expandViewportFromPoints points)"
  have ev: "expandViewportFromPoints points = Some ?v"
    using expandViewport_Cons [of p ps] Cons by simp
  have n: "north ?v = Max (lat ` set points) + (Max (lat ` set points) - Min (lat ` set points)) * 0.05"
   and s: "south ?v = Min (lat ` set points) - (Max (lat ` set points) - Min (lat ` set points)) * 0.05"
   and e: "east ?v = Max (lng ` set points) + (Max (lng ` set points) - Min (lng ` set points)) * 0.05"
   and w: "west ?v = Min (lng ` set points) - (Max (lng ` set points) - Min (lng ` set points)) * 0.05"
    using expandViewport_Cons [of p ps] unfolding Cons [symmetric] by simp_all
  have "north ?v \<ge> Max (lat ` set points)" "south ?v \<le> Min (lat ` set points)"
    unfolding n s using la by simp_all
  moreover have "east ?v \<ge> Max (lng ` set points)" "west ?v \<le> Min (lng ` set points)"
    unfolding e w using lo by simp_all
  ultimately show ?thesis
    using ev n s e w by (intro conjI impI exI [of _ ?v]) simp_all
qed

theorem expandViewport_bounds_witness:
  "expandViewportFromPoints [] = None \<and>
   [\<lparr>lat = 1, lng = 2\<rparr>, \<lparr>lat = 3, lng = -2\<rparr>] \<noteq> [] \<and>
   expandViewportFromPoints [\<lparr>lat = 1, lng = 2\<rparr>, \<lparr>lat = 3, lng = -2\<rparr>]
     = Some \<lparr>north = 3.1, south = 0.9, east = 2.2, west = -2.2\<rparr>"
  using expandViewport_bounds [of "[\<lparr>lat = 1, lng = 2\<rparr>, \<lparr>lat = 3, lng = -2\<rparr>]"]
  by (simp add: bounds_step_def)

section \<open>The search handler\<close>

lemma status_simps [simp]:
  "status (badRequest m) = 400" "status (externalError m) = 502"
  "status (serverError m) = 500" "status (NextResponse_json x) = 200"
  by (simp_all add: badRequest_def externalError_def serverError_def NextResponse_json_def)

lemma resolve_origin_Inl:
  "resolve_origin e req = (Inl r, calls) \<Longrightarrow> status r = 400 \<or> status r = 500"
  unfolding resolve_origin_def
  by (auto split: option.splits if_splits prod.splits sum.splits)

lemma search_places_POST_reaches_store:
  assumes "sp_query req = Some q" "q \<noteq> []" "resolve_origin e req = (Inr (c, area), calls)"
    "GOOGLE_PLACES_API_KEY e = Some apiKey" "apiKey \<noteq> []" "getAllBusinessPlaceIds e = Resolves ids"
  shows "search_places_POST e req =
           (NextResponse_json
               \<lparr> search = \<lparr> query = q, resolvedArea = area, center = c,
                            viewport = (case expandViewportFromPoints
                                               (map location (map fst (found_places e req c apiKey ids))) of
                                          None \<Rightarrow> fixed_viewport c | Some v \<Rightarrow> v) \<rparr>,
                 places = map fst (found_places e req c apiKey ids) \<rparr>,
            calls @ map (details_call apiKey (sp_language req)) ids)"
proof (cases "ids = []")
  case True
  then show ?thesis
    using assms unfolding search_places_POST_def
    by (simp add: found_places_def List.map_filter_simps)
next
  case False
  then show ?thesis
    using assms unfolding search_places_POST_def
    by (simp add: found_places_def Let_def)
qed

lemma search_places_POST_success:
  assumes "fst (search_places_POST e req) = NextResponse_json out"
  shows "\<exists>q c area calls apiKey ids.
           sp_query req = Some q \<and> q \<noteq> [] \<and>
           resolve_origin e req = (Inr (c, area), calls) \<and>
           GOOGLE_PLACES_API_KEY e = Some apiKey \<and> apiKey \<noteq> [] \<and>
           getAllBusinessPlaceIds e = Resolves ids \<and>
           search out = \<lparr> query = q, resolvedArea = area, center = c,
                          viewport = (case expandViewportFromPoints
                                             (map location (map fst (found_places e req c apiKey ids))) of
                                        None \<Rightarrow> fixed_viewport c | Some v \<Rightarrow> v) \<rparr> \<and>
           places out = map fst (found_places e req c apiKey ids)"
proof -
  have ne: "badRequest m \<noteq> NextResponse_json out" "serverError m \<noteq> NextResponse_json out" for m
    by (simp_all add: badRequest_def serverError_def NextResponse_json_def)
  obtain q where q: "sp_query req = Some q" "q \<noteq> []"
    using assms ne by (cases "sp_query req") (auto simp: search_places_POST_def split: if_splits)
  obtain c area calls where ro: "resolve_origin e req = (Inr (c, area), calls)"
  proof (cases "resolve_origin e req")
    case (Pair x calls)
    then show ?thesis
      using assms ne q that resolve_origin_Inl [of e req _ calls]
      unfolding search_places_POST_def
      by (cases x) auto
  qed
  obtain apiKey where k: "GOOGLE_PLACES_API_KEY e = Some apiKey" "apiKey \<noteq> []"
    using assms ne q ro unfolding search_places_POST_def
    by (cases "GOOGLE_PLACES_API_KEY e") (auto split: if_splits)
  obtain ids where ids: "getAllBusinessPlaceIds e = Resolves ids"
    using assms ne q ro k unfolding search_places_POST_def
    by (cases "getAllBusinessPlaceIds e") auto
  have out: "out = \<lparr> search = \<lparr> query = q, resolvedArea = area, center = c,
                          viewport = (case expandViewportFromPoints
                                             (map location (map fst (found_places e req c apiKey ids))) of
                                        None \<Rightarrow> fixed_viewport c | Some v \<Rightarrow> v) \<rparr>,
                 places = map fst (found_places e req c apiKey ids) \<rparr>"
  proof (cases "ids = []")
    case True
    then show ?thesis
      using assms q ro k ids unfolding search_places_POST_def
      by (simp add: found_places_def List.map_filter_simps NextResponse_json_def)
  next
    case False
    then show ?thesis
      using assms q ro k ids unfolding search_places_POST_def
      by (simp add: found_places_def Let_def NextResponse_json_def)
  qed
  show ?thesis
    using q ro k ids out by simp
qed


lemma fetch_place_Some:
  assumes "fetch_place e c r apiKey language pid = Some (p, d)"
  shows "d = calculateDistance (lat c) (lng c) (lat (location p)) (lng (location p))"
    and "d \<le> r" and "phone p = None"
  using assms unfolding fetch_place_def
  by (auto split: outcome.splits if_splits option.splits simp: Let_def)

lemma found_places_elem:
  assumes "(p, d) \<in> set (found_places e req c apiKey ids)"
  shows "d = calculateDistance (lat c) (lng c) (lat (location p)) (lng (location p))"
    and "d \<le> searchRadius (sp_radius_m req)" and "phone p = None"
proof -
  obtain pid where "fetch_place e c (searchRadius (sp_radius_m req)) apiKey (sp_language req) pid = Some (p, d)"
    using assms unfolding found_places_def
    by (auto simp: List.map_filter_def)
  then show "d = calculateDistance (lat c) (lng c) (lat (location p)) (lng (location p))"
    and "d \<le> searchRadius (sp_radius_m req)" and "phone p = None"
    by (rule fetch_place_Some)+
qed

lemma found_places_distances:
  "map (\<lambda>p. calculateDistance (lat c) (lng c) (lat (location p)) (lng (location p)))
       (map fst (found_places e req c apiKey ids))
   = map snd (found_places e req c apiKey ids)"
proof -
  have "\<forall>x \<in> set (found_places e req c apiKey ids).
          calculateDistance (lat c) (lng c) (lat (location (fst x))) (lng (location (fst x))) = snd x"
    using found_places_elem(1) [of _ _ e req c apiKey ids] by auto
  then show ?thesis by (simp add: comp_def)
qed

lemma found_places_sorted: "sorted (map snd (found_places e req c apiKey ids))"
  unfolding found_places_def by (rule sorted_sort_key)

text \<open>
  Claim C2. In every successful response of search_places the places are in ascending
  order of their haversine distance from the resolved origin (the center of the
  response), and each lies within the clamped radius, which is \<open>radius_m\<close> (40000 when
  absent) forced into the interval from 100 to 50000.
\<close>

theorem search_sorted_within_radius:
  assumes "fst (search_places_POST e req) = NextResponse_json out"
  shows "sorted (map (distance_from (center (search out))) (places out))
       \<and> (\<forall>p \<in> set (places out).
             distance_from (center (search out)) p
               \<le> max 100 (min 50000 (case sp_radius_m req of None \<Rightarrow> 40000 | Some r \<Rightarrow> r)))
       \<and> 100 \<le> max 100 (min 50000 (case sp_radius_m req of None \<Rightarrow> 40000 | Some r \<Rightarrow> r))
       \<and> max 100 (min 50000 (case sp_radius_m req of None \<Rightarrow> 40000 | Some r \<Rightarrow> r)) \<le> (50000::real)"
proof -
  obtain c apiKey ids where
    c: "center (search out) = c" and pl: "places out = map fst (found_places e req c apiKey ids)"
    using search_places_POST_success [OF assms] by auto
  have d: "map (distance_from c) (places out) = map snd (found_places e req c apiKey ids)"
    unfolding pl using found_places_distances [of c e req apiKey ids]
    by (simp add: distance_from_def [abs_def])
  have s: "sorted (map (distance_from (center (search out))) (places out))"
    unfolding c d by (rule found_places_sorted)
  have r: "distance_from (center (search out)) p \<le> searchRadius (sp_radius_m req)"
    if "p \<in> set (places out)" for p
  proof -
    have "p \<in> fst ` set (found_places e req c apiKey ids)"
      using that by (simp add: pl)
    then obtain dd where "(p, dd) \<in> set (found_places e req c apiKey ids)"
      by auto
    then show ?thesis
      using found_places_elem(1,2) [of p dd e req c apiKey ids]
      by (simp add: distance_from_def c)
  qed
  show ?thesis
    using s r unfolding searchRadius_def by simp
qed

text \<open>
  Claim C10. Every place of a successful response of search_places has \<open>phone = null\<close>,
  whatever the provider supplies.
\<close>

theorem search_phone_null:
  assumes "fst (search_places_POST e req) = NextResponse_json out"
  shows "\<forall>p \<in> set (places out). phone p = None"
proof -
  obtain c apiKey ids where
    pl: "places out = map fst (found_places e req c apiKey ids)"
    using search_places_POST_success [OF assms] by auto
  show ?thesis
  proof
    fix p assume "p \<in> set (places out)"
    then have "p \<in> fst ` set (found_places e req c apiKey ids)"
      by (simp add: pl)
    then obtain dd where "(p, dd) \<in> set (found_places e req c apiKey ids)"
      by auto
    then show "phone p = None" by (rule found_places_elem(3))
  qed
qed

subsection \<open>The example search\<close>

lemma distance_same_point: "calculateDistance a b a b = 0"
  by (simp add: calculateDistance_def atan2_def)

text \<open>Along a meridian the distance is the difference of latitude, as an arc.\<close>

lemma distance_same_meridian:
  assumes "0 \<le> lat1 - lat2" and "lat1 - lat2 < 180"
  shows "calculateDistance lat1 lng0 lat2 lng0 = 6371000 * ((lat1 - lat2) * pi / 180)"
proof -
  define y where "y = (lat1 - lat2) * pi / 360"
  have y0: "0 \<le> y" and y1: "y < pi / 2"
    using assms by (simp_all add: y_def)
  have x: "((lat2 - lat1) * pi / 180) / 2 = - y"
    by (simp add: y_def field_simps)
  have s: "0 \<le> sin y" using y0 y1 by (intro sin_ge_zero) simp_all
  have c: "0 < cos y" using y0 y1 by (intro cos_gt_zero_pi) simp_all
  have a: "sin (- y) * sin (- y) = (sin y)\<^sup>2" by (simp add: power2_eq_square)
  have "1 - (sin y)\<^sup>2 = (cos y)\<^sup>2"
    by (simp add: cos_squared_eq)
  then have q: "sqrt (1 - (sin y)\<^sup>2) = cos y" and p: "sqrt ((sin y)\<^sup>2) = sin y"
    using s c by simp_all
  have "atan2 (sin y) (cos y) = arctan (tan y)"
    using c by (simp add: atan2_def tan_def)
  also have "\<dots> = y" using y0 y1 by (intro arctan_tan) simp_all
  finally have t: "atan2 (sin y) (cos y) = y" .
  have "calculateDistance lat1 lng0 lat2 lng0 = 6371000 * (2 * y)"
    unfolding calculateDistance_def Let_def x a by (simp add: p q t abs_of_nonneg [OF s])
  then show ?thesis by (simp add: y_def)
qed

lemma example_distance_A: "calculateDistance 90 45 89.9 45 = 6371000 * (pi / 1800)"
  using distance_same_meridian [of 90 "89.9" 45] by simp

lemma example_distance_B: "calculateDistance 90 45 89 45 = 6371000 * (pi / 180)"
  using distance_same_meridian [of 90 89 45] by simp

lemma example_fetch_A:
  "fetch_place example_env \<lparr>lat = 90, lng = 45\<rparr> 40000 ''test-api-key'' None ''A''
     = Some (example_place_A, 6371000 * (pi / 1800))"
proof -
  have "6371000 * (pi / 1800) \<le> (40000::real)" using pi_less_4 by simp
  then show ?thesis
    by (simp add: fetch_place_def example_env_def details_call_def example_distance_A
          example_place_A_def)
qed

lemma example_fetch_B:
  "fetch_place example_env \<lparr>lat = 90, lng = 45\<rparr> 40000 ''test-api-key'' None ''B'' = None"
proof -
  have "\<not> 6371000 * (pi / 180) \<le> (40000::real)" using pi_ge_two by simp
  then show ?thesis
    by (simp add: fetch_place_def example_env_def details_call_def example_distance_B)
qed

lemma example_fetch_C:
  "fetch_place example_env \<lparr>lat = 90, lng = 45\<rparr> 40000 ''test-api-key'' None ''C'' = None"
  by (simp add: fetch_place_def example_env_def details_call_def)

lemma example_fetch_D:
  "fetch_place example_env \<lparr>lat = 90, lng = 45\<rparr> 40000 ''test-api-key'' None ''D''
     = Some (example_place_D, 0)"
  by (simp add: fetch_place_def example_env_def details_call_def distance_same_point
        example_place_D_def)

lemma example_found_places:
  "found_places example_env example_search \<lparr>lat = 90, lng = 45\<rparr> ''test-api-key''
     [''A'', ''B'', ''C'', ''D'']
   = [(example_place_D, 0), (example_place_A, 6371000 * (pi / 1800))]"
proof -
  have r: "searchRadius (sp_radius_m example_search) = 40000"
    by (simp add: searchRadius_def example_search_def)
  have l: "sp_language example_search = None"
    by (simp add: example_search_def)
  have p: "\<not> pi \<le> 0" using pi_gt_zero by (simp only: not_le)
  show ?thesis
    unfolding found_places_def r l
    by (simp add: example_fetch_A example_fetch_B example_fetch_C example_fetch_D
          List.map_filter_simps p)
qed

lemma example_search_result:
  "search_places_POST example_env example_search =
     (NextResponse_json example_output,
      [details_call ''test-api-key'' None ''A'', details_call ''test-api-key'' None ''B'',
       details_call ''test-api-key'' None ''C'', details_call ''test-api-key'' None ''D''])"
proof -
  have ro: "resolve_origin example_env example_search = (Inr (\<lparr>lat = 90, lng = 45\<rparr>, []), [])"
    by (simp add: resolve_origin_def usable_center_def example_search_def)
  have l: "sp_language example_search = None" and q: "sp_query example_search = Some ''coffee''"
    by (simp_all add: example_search_def)
  have k: "GOOGLE_PLACES_API_KEY example_env = Some ''test-api-key''"
    and ids: "getAllBusinessPlaceIds example_env = Resolves [''A'', ''B'', ''C'', ''D'']"
    by (simp_all add: example_env_def getAllBusinessPlaceIds_def)
  have "search_places_POST example_env example_search =
           (NextResponse_json
               \<lparr> search = \<lparr> query = ''coffee'', resolvedArea = [], center = \<lparr>lat = 90, lng = 45\<rparr>,
                            viewport = (case expandViewportFromPoints
                                               (map location (map fst
                                                  [(example_place_D, 0),
                                                   (example_place_A, 6371000 * (pi / 1800))])) of
                                          None \<Rightarrow> fixed_viewport \<lparr>lat = 90, lng = 45\<rparr>
                                        | Some v \<Rightarrow> v) \<rparr>,
                 places = map fst [(example_place_D, 0), (example_place_A, 6371000 * (pi / 1800))] \<rparr>,
            [] @ map (details_call ''test-api-key'' None) [''A'', ''B'', ''C'', ''D''])"
    using search_places_POST_reaches_store [OF q _ ro k _ ids]
    unfolding example_found_places l by simp
  then show ?thesis
    by (simp add: example_output_def example_place_A_def example_place_D_def bounds_step_def)
qed

theorem search_sorted_within_radius_witness:
  "fst (search_places_POST example_env example_search) = NextResponse_json example_output
   \<and> places example_output = [example_place_D, example_place_A]
   \<and> sorted (map (distance_from (center (search example_output))) (places example_output))
   \<and> distance_from (center (search example_output)) example_place_D \<le> 40000
   \<and> distance_from (center (search example_output)) example_place_A \<le> 40000"
  using search_sorted_within_radius [of example_env example_search example_output]
  by (simp add: example_search_result) (simp add: example_search_def example_output_def)

theorem search_phone_null_witness:
  "fst (search_places_POST example_env example_search) = NextResponse_json example_output
   \<and> phone example_place_D = None \<and> phone example_place_A = None"
  using search_phone_null [of example_env example_search example_output]
  by (simp add: example_search_result) (simp add: example_output_def)

subsection \<open>Origin, store and resolved area\<close>

lemma geocodeWhere_calls:
  "geocodeWhere e wh = (r, calls) \<Longrightarrow> \<forall>call \<in> set calls. \<not> is_details_call call"
  unfolding geocodeWhere_def
  by (auto split: option.splits if_splits outcome.splits list.splits simp: Let_def)

lemma resolve_origin_calls:
  "resolve_origin e req = (r, calls) \<Longrightarrow> \<forall>call \<in> set calls. \<not> is_details_call call"
  unfolding resolve_origin_def
  by (auto split: option.splits if_splits prod.splits sum.splits dest: geocodeWhere_calls)

lemma resolve_origin_area:
  assumes "resolve_origin e req = (Inr (c, area), calls)"
  shows "(case usable_center (sp_center req) of
            Some p \<Rightarrow> area = [] \<and> c = p \<and> calls = []
          | None \<Rightarrow> sp_where req = Some area \<and> area \<noteq> [])"
  using assms unfolding resolve_origin_def
  by (auto split: option.splits if_splits prod.splits sum.splits)

text \<open>
  Claim C1 (the code departs from it). A center whose latitude is 0 is not used as the
  origin: without a \<open>where\<close> text the request is rejected with status 400.
\<close>

theorem search_center_zero_rejected:
  "search_places_POST e
     \<lparr> sp_query = Some ''coffee'', sp_where = None,
       sp_center = Some \<lparr> lat = 0, lng = 10 \<rparr>,
       sp_radius_m = None, sp_language = None \<rparr>
   = (badRequest ''Either center coordinates or where location string must be provided'', [])"
  by (simp add: search_places_POST_def resolve_origin_def usable_center_def)

text \<open>
  Claim C3, as stated, fails: with a center given (so the origin resolves) and an empty
  store, a deployment without the provider key answers with status 500.
\<close>

theorem search_empty_store_counterexample:
  "resolve_origin (example_env \<lparr> GOOGLE_PLACES_API_KEY := None, business_findMany := Resolves [] \<rparr>)
       example_search = (Inr (\<lparr> lat = 90, lng = 45 \<rparr>, []), [])
   \<and> getAllBusinessPlaceIds
       (example_env \<lparr> GOOGLE_PLACES_API_KEY := None, business_findMany := Resolves [] \<rparr>)
       = Resolves []
   \<and> search_places_POST
       (example_env \<lparr> GOOGLE_PLACES_API_KEY := None, business_findMany := Resolves [] \<rparr>)
       example_search
       = (serverError ''GOOGLE_PLACES_API_KEY not configured'', [])
   \<and> status (serverError ''GOOGLE_PLACES_API_KEY not configured'' :: SearchOutput NextResponse) = 500"
  by (simp add: search_places_POST_def resolve_origin_def usable_center_def example_search_def
        example_env_def getAllBusinessPlaceIds_def)

text \<open>
  Claim C3, amended. For a request with a query whose origin resolves, when the provider
  key is configured and the store holds no place id, the response is a success with no
  places and the viewport of 0.01 degrees around the origin, and no place-details call
  is made.
\<close>

theorem search_empty_store:
  assumes "sp_query req = Some q" and "q \<noteq> []"
    and "resolve_origin e req = (Inr (origin, area), calls)"
    and "GOOGLE_PLACES_API_KEY e = Some apiKey" and "apiKey \<noteq> []"
    and "getAllBusinessPlaceIds e = Resolves []"
  shows "fst (search_places_POST e req) =
           NextResponse_json
             \<lparr> search = \<lparr> query = q, resolvedArea = area, center = origin,
                          viewport = \<lparr> north = lat origin + 0.01, south = lat origin - 0.01,
                                       east = lng origin + 0.01, west = lng origin - 0.01 \<rparr> \<rparr>,
               places = [] \<rparr>
       \<and> (\<forall>call \<in> set (snd (search_places_POST e req)). \<not> is_details_call call)"
proof -
  have "search_places_POST e req =
          (NextResponse_json
             \<lparr> search = \<lparr> query = q, resolvedArea = area, center = origin,
                          viewport = fixed_viewport origin \<rparr>,
               places = [] \<rparr>, calls)"
    using assms by (simp add: search_places_POST_def)
  then show ?thesis
    using resolve_origin_calls [OF assms(3)] by (simp add: fixed_viewport_def)
qed

theorem search_empty_store_witness:
  "sp_query example_search = Some ''coffee'' \<and> ''coffee'' \<noteq> []
   \<and> resolve_origin (example_env \<lparr> business_findMany := Resolves [] \<rparr>) example_search
       = (Inr (\<lparr> lat = 90, lng = 45 \<rparr>, []), [])
   \<and> GOOGLE_PLACES_API_KEY (example_env \<lparr> business_findMany := Resolves [] \<rparr>) = Some ''test-api-key''
   \<and> getAllBusinessPlaceIds (example_env \<lparr> business_findMany := Resolves [] \<rparr>) = Resolves []
   \<and> fst (search_places_POST (example_env \<lparr> business_findMany := Resolves [] \<rparr>) example_search) =
           NextResponse_json
             \<lparr> search = \<lparr> query = ''coffee'', resolvedArea = [], center = \<lparr> lat = 90, lng = 45 \<rparr>,
                          viewport = \<lparr> north = 90.01, south = 89.99, east = 45.01, west = 44.99 \<rparr> \<rparr>,
               places = [] \<rparr>"
  using search_empty_store [of example_search "''coffee''"
          "example_env \<lparr> business_findMany := Resolves [] \<rparr>" "\<lparr> lat = 90, lng = 45 \<rparr>" "[]" "[]"
          "''test-api-key''"]
  by (simp add: resolve_origin_def usable_center_def example_search_def
        example_env_def getAllBusinessPlaceIds_def)

text \<open>
  Claim C5, as stated, fails: when both a usable center and a \<open>where\<close> text are given,
  the response is a success whose \<open>resolvedArea\<close> is the empty string, not the text.
\<close>

theorem search_resolvedArea_counterexample:
  "sp_where example_search = Some ''Dublin''
   \<and> fst (search_places_POST example_env example_search) = NextResponse_json example_output
   \<and> resolvedArea (search example_output) = []
   \<and> resolvedArea (search example_output) \<noteq> ''Dublin''"
  by (simp add: example_search_result) (simp add: example_search_def example_output_def)

text \<open>
  Claim C5, amended. In a successful response, \<open>resolvedArea\<close> is the empty string when
  the origin is a given center with non-zero latitude and longitude (also when a
  \<open>where\<close> text is given too), and it is the \<open>where\<close> text when no center is given.
\<close>

theorem search_resolvedArea:
  assumes "fst (search_places_POST e req) = NextResponse_json out"
  shows "(\<forall>c. sp_center req = Some c \<and> lat c \<noteq> 0 \<and> lng c \<noteq> 0
              \<longrightarrow> resolvedArea (search out) = [])
       \<and> (sp_center req = None \<longrightarrow> sp_where req = Some (resolvedArea (search out)))"
proof -
  obtain c area calls where ro: "resolve_origin e req = (Inr (c, area), calls)"
    and a: "resolvedArea (search out) = area"
    using search_places_POST_success [OF assms] by auto
  show ?thesis
    using resolve_origin_area [OF ro] unfolding a
    by (auto simp: usable_center_def split: option.splits if_splits)
qed

lemma found_places_center:
  "found_places e (req\<lparr>sp_center := x\<rparr>) c apiKey ids = found_places e req c apiKey ids"
  by (simp add: found_places_def)

lemma example_where_result:
  "fst (search_places_POST example_env (example_search\<lparr>sp_center := None\<rparr>))
     = NextResponse_json
         (example_output\<lparr>search := (search example_output)\<lparr>resolvedArea := ''Dublin''\<rparr>\<rparr>)"
proof -
  have ro: "resolve_origin example_env (example_search\<lparr>sp_center := None\<rparr>)
      = (Inr (\<lparr>lat = 90, lng = 45\<rparr>, ''Dublin''), [GeocodeCall ''Dublin'' ''test-api-key''])"
    by (simp add: resolve_origin_def usable_center_def example_search_def geocodeWhere_def
          example_env_def example_geocode_def)
  have q: "sp_query (example_search\<lparr>sp_center := None\<rparr>) = Some ''coffee''"
    by (simp add: example_search_def)
  have k: "GOOGLE_PLACES_API_KEY example_env = Some ''test-api-key''"
    and ids: "getAllBusinessPlaceIds example_env = Resolves [''A'', ''B'', ''C'', ''D'']"
    by (simp_all add: example_env_def getAllBusinessPlaceIds_def)
  have "fst (search_places_POST example_env (example_search\<lparr>sp_center := None\<rparr>)) =
           NextResponse_json
               \<lparr> search = \<lparr> query = ''coffee'', resolvedArea = ''Dublin'',
                            center = \<lparr>lat = 90, lng = 45\<rparr>,
                            viewport = (case expandViewportFromPoints
                                               (map location (map fst
                                                  [(example_place_D, 0),
                                                   (example_place_A, 6371000 * (pi / 1800))])) of
                                          None \<Rightarrow> fixed_viewport \<lparr>lat = 90, lng = 45\<rparr>
                                        | Some v \<Rightarrow> v) \<rparr>,
                 places = map fst [(example_place_D, 0), (example_place_A, 6371000 * (pi / 1800))] \<rparr>"
    using search_places_POST_reaches_store [OF q _ ro k _ ids]
    unfolding found_places_center example_found_places by simp
  then show ?thesis
    by (simp add: example_output_def example_place_A_def example_place_D_def bounds_step_def)
qed

theorem search_resolvedArea_witness:
  "fst (search_places_POST example_env example_search) = NextResponse_json example_output
   \<and> sp_center example_search = Some \<lparr> lat = 90, lng = 45 \<rparr>
   \<and> resolvedArea (search example_output) = []
   \<and> fst (search_places_POST example_env (example_search\<lparr>sp_center := None\<rparr>))
       = NextResponse_json
           (example_output\<lparr>search := (search example_output)\<lparr>resolvedArea := ''Dublin''\<rparr>\<rparr>)
   \<and> sp_center (example_search\<lparr>sp_center := None\<rparr>) = None
   \<and> sp_where (example_search\<lparr>sp_center := None\<rparr>) = Some ''Dublin''"
  using search_resolvedArea [of example_env example_search example_output]
    search_resolvedArea [of example_env "example_search\<lparr>sp_center := None\<rparr>"
      "example_output\<lparr>search := (search example_output)\<lparr>resolvedArea := ''Dublin''\<rparr>\<rparr>"]
  by (simp add: example_search_result example_where_result)
     (simp add: example_search_def example_output_def)

subsection \<open>Failing lookups\<close>

lemma search_places_POST_details_phase:
  assumes "call \<in> set (snd (search_places_POST e req))" and "is_details_call call"
  shows "\<exists>q c area calls apiKey ids.
           sp_query req = Some q \<and> q \<noteq> [] \<and>
           resolve_origin e req = (Inr (c, area), calls) \<and>
           GOOGLE_PLACES_API_KEY e = Some apiKey \<and> apiKey \<noteq> [] \<and>
           getAllBusinessPlaceIds e = Resolves ids \<and> ids \<noteq> [] \<and>
           call \<in> set (map (details_call apiKey (sp_language req)) ids) \<and>
           fst (search_places_POST e req) =
             NextResponse_json
               \<lparr> search = \<lparr> query = q, resolvedArea = area, center = c,
                            viewport = (case expandViewportFromPoints
                                               (map location (map fst (found_places e req c apiKey ids))) of
                                          None \<Rightarrow> fixed_viewport c | Some v \<Rightarrow> v) \<rparr>,
                 places = map fst (found_places e req c apiKey ids) \<rparr>"
proof -
  obtain q where q: "sp_query req = Some q" "q \<noteq> []"
    using assms by (cases "sp_query req") (auto simp: search_places_POST_def split: if_splits)
  obtain x calls where ro: "resolve_origin e req = (x, calls)"
    by (cases "resolve_origin e req") auto
  have nd: "call \<notin> set calls"
    using resolve_origin_calls [OF ro] assms(2) by auto
  obtain c area where x: "x = Inr (c, area)"
    using assms(1) q ro nd unfolding search_places_POST_def by (cases x) auto
  obtain apiKey where k: "GOOGLE_PLACES_API_KEY e = Some apiKey" "apiKey \<noteq> []"
    using assms(1) q ro x nd unfolding search_places_POST_def
    by (cases "GOOGLE_PLACES_API_KEY e") (auto split: if_splits)
  obtain ids where ids: "getAllBusinessPlaceIds e = Resolves ids"
    using assms(1) q ro x k nd unfolding search_places_POST_def
    by (cases "getAllBusinessPlaceIds e") auto
  have ne: "ids \<noteq> []"
    using assms(1) q ro x k ids nd unfolding search_places_POST_def by auto
  have "search_places_POST e req =
          (NextResponse_json
               \<lparr> search = \<lparr> query = q, resolvedArea = area, center = c,
                            viewport = (case expandViewportFromPoints
                                               (map location (map fst (found_places e req c apiKey ids))) of
                                          None \<Rightarrow> fixed_viewport c | Some v \<Rightarrow> v) \<rparr>,
                 places = map fst (found_places e req c apiKey ids) \<rparr>,
           calls @ map (details_call apiKey (sp_language req)) ids)"
    using q ro x k ids ne unfolding search_places_POST_def
    by (simp add: found_places_def Let_def)
  then show ?thesis
    using q ro x k ids ne nd assms(1) by auto
qed

lemma fetch_place_failed:
  "lookup_failed (details_fetch e (details_call apiKey language pid))
   \<Longrightarrow> fetch_place e c r apiKey language pid = None"
  unfolding fetch_place_def lookup_failed_def
  by (auto split: outcome.splits option.splits)

lemma map_filter_removeAll:
  "f x = None \<Longrightarrow> List.map_filter (\<lambda>r. r) (map f (removeAll x xs)) = List.map_filter (\<lambda>r. r) (map f xs)"
  by (induction xs) (auto simp: List.map_filter_simps split: option.splits)

lemma found_places_removeAll:
  "fetch_place e c (searchRadius (sp_radius_m req)) apiKey (sp_language req) pid = None
   \<Longrightarrow> found_places e req c apiKey (removeAll pid ids) = found_places e req c apiKey ids"
  unfolding found_places_def by (simp add: map_filter_removeAll)

lemma geocodeWhere_store: "geocodeWhere (e\<lparr>business_findMany := s\<rparr>) wh = geocodeWhere e wh"
  by (simp add: geocodeWhere_def cong: option.case_cong if_cong)

lemma resolve_origin_store: "resolve_origin (e\<lparr>business_findMany := s\<rparr>) req = resolve_origin e req"
  by (simp add: resolve_origin_def geocodeWhere_store cong: option.case_cong if_cong)

lemma fetch_place_store:
  "fetch_place (e\<lparr>business_findMany := s\<rparr>) = fetch_place e"
  by (rule ext)+ (simp add: fetch_place_def)

lemma found_places_store:
  "found_places (e\<lparr>business_findMany := s\<rparr>) req c apiKey ids = found_places e req c apiKey ids"
  by (simp add: found_places_def fetch_place_store)

text \<open>
  Claim C4. When the search has issued the details lookup of a curated place id and that
  lookup fails (the fetch throws, the status is not OK, or there is no geometry
  location), the search still answers with a success, and the response is the one of the
  same search over the store without that id: the place is left out and the remaining
  places are returned.
\<close>

theorem search_lookup_failure_tolerated:
  assumes "DetailsCall pid flds key language \<in> set (snd (search_places_POST e req))"
    and "lookup_failed (details_fetch e (DetailsCall pid flds key language))"
  shows "\<exists>out ids. fst (search_places_POST e req) = NextResponse_json out
           \<and> business_findMany e = Resolves ids \<and> pid \<in> set ids
           \<and> fst (search_places_POST (e\<lparr>business_findMany := Resolves (removeAll pid ids)\<rparr>) req)
               = NextResponse_json out"
proof -
  obtain q c area calls apiKey ids where
    q: "sp_query req = Some q" "q \<noteq> []"
    and ro: "resolve_origin e req = (Inr (c, area), calls)"
    and k: "GOOGLE_PLACES_API_KEY e = Some apiKey" "apiKey \<noteq> []"
    and ids: "getAllBusinessPlaceIds e = Resolves ids"
    and mem: "DetailsCall pid flds key language \<in> set (map (details_call apiKey (sp_language req)) ids)"
    and res: "fst (search_places_POST e req) =
             NextResponse_json
               \<lparr> search = \<lparr> query = q, resolvedArea = area, center = c,
                            viewport = (case expandViewportFromPoints
                                               (map location (map fst (found_places e req c apiKey ids))) of
                                          None \<Rightarrow> fixed_viewport c | Some v \<Rightarrow> v) \<rparr>,
                 places = map fst (found_places e req c apiKey ids) \<rparr>"
    using search_places_POST_details_phase [OF assms(1)] by auto
  from mem have pid: "pid \<in> set ids"
    and call: "DetailsCall pid flds key language = details_call apiKey (sp_language req) pid"
    by (auto simp: details_call_def)
  have none: "fetch_place e c (searchRadius (sp_radius_m req)) apiKey (sp_language req) pid = None"
    using assms(2) unfolding call by (rule fetch_place_failed)
  let ?e' = "e\<lparr>business_findMany := Resolves (removeAll pid ids)\<rparr>"
  have "fst (search_places_POST ?e' req) =
             NextResponse_json
               \<lparr> search = \<lparr> query = q, resolvedArea = area, center = c,
                            viewport = (case expandViewportFromPoints
                                               (map location (map fst (found_places ?e' req c apiKey (removeAll pid ids)))) of
                                          None \<Rightarrow> fixed_viewport c | Some v \<Rightarrow> v) \<rparr>,
                 places = map fst (found_places ?e' req c apiKey (removeAll pid ids)) \<rparr>"
    using q ro k
    by (subst search_places_POST_reaches_store [of req q _ c area calls apiKey "removeAll pid ids"])
       (simp_all add: resolve_origin_store getAllBusinessPlaceIds_def)
  then have eq: "fst (search_places_POST ?e' req) = fst (search_places_POST e req)"
    unfolding res found_places_store found_places_removeAll [OF none] .
  have st: "business_findMany e = Resolves ids"
    using ids by (simp add: getAllBusinessPlaceIds_def)
  have eq': "fst (search_places_POST ?e' req) =
             NextResponse_json
               \<lparr> search = \<lparr> query = q, resolvedArea = area, center = c,
                            viewport = (case expandViewportFromPoints
                                               (map location (map fst (found_places e req c apiKey ids))) of
                                          None \<Rightarrow> fixed_viewport c | Some v \<Rightarrow> v) \<rparr>,
                 places = map fst (found_places e req c apiKey ids) \<rparr>"
    using eq res by (rule trans)
  show ?thesis
    by (intro exI conjI) (rule res, rule st, rule pid, rule eq')
qed

theorem search_lookup_failure_tolerated_witness:
  "DetailsCall ''C'' ''place_id,name,formatted_address,geometry,rating,user_ratings_total''
       ''test-api-key'' None \<in> set (snd (search_places_POST example_env example_search))
   \<and> lookup_failed (details_fetch example_env
        (DetailsCall ''C'' ''place_id,name,formatted_address,geometry,rating,user_ratings_total''
           ''test-api-key'' None))
   \<and> fst (search_places_POST example_env example_search) = NextResponse_json example_output
   \<and> fst (search_places_POST (example_env\<lparr>business_findMany := Resolves [''A'', ''B'', ''D'']\<rparr>)
            example_search)
       = NextResponse_json example_output"
proof -
  have 1: "DetailsCall ''C'' ''place_id,name,formatted_address,geometry,rating,user_ratings_total''
       ''test-api-key'' None \<in> set (snd (search_places_POST example_env example_search))"
    by (simp add: example_search_result details_call_def)
  have 2: "lookup_failed (details_fetch example_env
        (DetailsCall ''C'' ''place_id,name,formatted_address,geometry,rating,user_ratings_total''
           ''test-api-key'' None))"
    by (simp add: lookup_failed_def example_env_def)
  have 3: "business_findMany example_env = Resolves [''A'', ''B'', ''C'', ''D'']"
    by (simp add: example_env_def)
  show ?thesis
    using search_lookup_failure_tolerated [OF 1 2] 1 2 3
    by (auto simp: example_search_result)
qed

section \<open>The directions handler\<close>

lemma checked_coords_iff: "checked_coords c \<noteq> None \<longleftrightarrow> is_coordinate_object c"
proof (cases c)
  case None
  then show ?thesis by (simp add: checked_coords_def)
next
  case (Some v)
  show ?thesis
    unfolding Some
    by (cases v)
       (auto simp: checked_coords_def number_member_def split: option.splits json.splits)
qed

lemma directions_response_status:
  "status (directions_response f t travel d) = 200 \<or> status (directions_response f t travel d) = 502"
  unfolding directions_response_def
  by (auto split: option.splits list.splits)

lemma directions_response_not_400: "status (directions_response f t travel d) \<noteq> 400"
  using directions_response_status [of f t travel d] by auto

lemma directions_response_alt:
  "directions_response f t travel d =
     (if dir_status d \<noteq> ''OK''
      then externalError
             (''Directions API error: '' @ dir_status d
              @ (case dir_error_message d of
                   None \<Rightarrow> []
                 | Some m \<Rightarrow> if m = [] then [] else '' - '' @ m))
      else
        (case first_route d of
           None \<Rightarrow> externalError ''No routes found in Directions API response''
         | Some route \<Rightarrow>
             (case first_leg route of
                None \<Rightarrow> externalError ''No legs found in route''
              | Some leg \<Rightarrow>
                  (case route_overview_polyline_points route of
                     None \<Rightarrow> externalError ''No polyline found in route''
                   | Some pts \<Rightarrow>
                       if pts = [] then externalError ''No polyline found in route''
                       else NextResponse_json
                         \<lparr> directions =
                             \<lparr> dir_from = fst f, dir_to = fst t, mode = travel, polyline = pts,
                               distanceText =
                                 or_default (leg_distance_text leg) ''Unknown distance'',
                               durationText =
                                 or_default (leg_duration_text leg) ''Unknown duration'',
                               googleMapsUrl = MapsDirUrl (snd f) (snd t) travel \<rparr> \<rparr>))))"
  unfolding directions_response_def first_route_def first_leg_def
  by (simp split: option.splits list.splits)

lemma get_directions_valid:
  assumes t: "checked_coords (gd_to_coords req) = Some tc"
    and f: "checked_coords (gd_from_coords req) = Some fc"
  shows "(\<exists>m calls. get_directions_POST e req = (serverError m, calls)
            \<and> (\<forall>call \<in> set calls. \<exists>err. directions_fetch e call = Throws err))
       \<or> (\<exists>call d travel. get_directions_POST e req = (directions_response fc tc travel d, [call])
            \<and> directions_fetch e call = Resolves d)"
proof (cases "or_else (GOOGLE_DIRECTIONS_API_KEY e) (GOOGLE_PLACES_API_KEY e)")
  case None
  then have "get_directions_POST e req = (serverError ''GOOGLE_DIRECTIONS_API_KEY not configured'', [])"
    by (simp add: get_directions_POST_def t f)
  then show ?thesis by force
next
  case (Some apiKey)
  show ?thesis
  proof (cases "apiKey = []")
    case True
    then have "get_directions_POST e req = (serverError ''GOOGLE_DIRECTIONS_API_KEY not configured'', [])"
      using Some by (simp add: get_directions_POST_def t f)
    then show ?thesis by force
  next
    case False
    define travel where "travel = (case gd_mode req of None \<Rightarrow> ''driving'' | Some m \<Rightarrow> m)"
    define call where "call = directions_call (snd fc) (snd tc) travel apiKey (gd_language req)"
    show ?thesis
    proof (cases "directions_fetch e call")
      case (Throws err)
      then have "get_directions_POST e req = (serverError err, [call])"
        using Some False unfolding call_def travel_def
        by (simp add: get_directions_POST_def t f Let_def)
      then show ?thesis using Throws by auto
    next
      case (Resolves d)
      then have "get_directions_POST e req = (directions_response fc tc travel d, [call])"
        using Some False unfolding call_def travel_def
        by (simp add: get_directions_POST_def t f Let_def)
      then show ?thesis using Resolves by blast
    qed
  qed
qed

lemma get_directions_400_iff:
  "status (fst (get_directions_POST e req)) = 400
   \<longleftrightarrow> checked_coords (gd_from_coords req) = None \<or> checked_coords (gd_to_coords req) = None"
proof (cases "checked_coords (gd_to_coords req)")
  case None
  then show ?thesis by (simp add: get_directions_POST_def)
next
  case t: (Some tc)
  show ?thesis
  proof (cases "checked_coords (gd_from_coords req)")
    case None
    then show ?thesis using t by (simp add: get_directions_POST_def)
  next
    case f: (Some fc)
    have "status (fst (get_directions_POST e req)) \<noteq> 400"
      using get_directions_valid [OF t f, of e] directions_response_not_400 [of fc tc]
      by (auto simp: serverError_def)
    then show ?thesis using t f by simp
  qed
qed

lemma get_directions_provider_answer:
  assumes "is_coordinate_object (gd_from_coords req)" "is_coordinate_object (gd_to_coords req)"
    and "snd (get_directions_POST e req) = [call]"
    and "directions_fetch e call = Resolves d"
  shows "\<exists>f t travel. fst (get_directions_POST e req) = directions_response f t travel d"
proof -
  obtain fc tc where f: "checked_coords (gd_from_coords req) = Some fc"
    and t: "checked_coords (gd_to_coords req) = Some tc"
    using assms(1,2) checked_coords_iff by (metis not_Some_eq)
  from get_directions_valid [OF t f, of e] show ?thesis
  proof
    assume "\<exists>m calls. get_directions_POST e req = (serverError m, calls)
            \<and> (\<forall>call \<in> set calls. \<exists>err. directions_fetch e call = Throws err)"
    then show ?thesis using assms(3,4) by auto
  next
    assume "\<exists>call d travel. get_directions_POST e req = (directions_response fc tc travel d, [call])
            \<and> directions_fetch e call = Resolves d"
    then obtain call' d' travel where
      r: "get_directions_POST e req = (directions_response fc tc travel d', [call'])"
      and d: "directions_fetch e call' = Resolves d'"
      by blast
    have "call' = call" using r assms(3) by simp
    then have "d' = d" using d assms(4) by simp
    then have "fst (get_directions_POST e req) = directions_response fc tc travel d"
      using r by simp
    then show ?thesis by blast
  qed
qed

text \<open>
  Claim C6. A get_directions request is answered with status 400 exactly when
  \<open>from_coords\<close> or \<open>to_coords\<close> is missing or is not an object with numeric \<open>lat\<close> and
  \<open>lng\<close>. With valid coordinates, when the provider was asked and its answer has a
  status other than OK, or has no first route, no first leg or no overview polyline, the
  response has status 502 in each of these cases, which is not the status 400 of the
  validation error.
\<close>

theorem get_directions_errors:
  "(status (fst (get_directions_POST e req)) = 400
      \<longleftrightarrow> \<not> is_coordinate_object (gd_from_coords req) \<or> \<not> is_coordinate_object (gd_to_coords req))
   \<and> (is_coordinate_object (gd_from_coords req) \<and> is_coordinate_object (gd_to_coords req)
        \<and> snd (get_directions_POST e req) = [call] \<and> directions_fetch e call = Resolves d
        \<and> (dir_status d \<noteq> ''OK'' \<or> first_route d = None
             \<or> (\<exists>r. first_route d = Some r
                    \<and> (first_leg r = None \<or> route_overview_polyline_points r = None)))
      \<longrightarrow> (\<exists>message. fst (get_directions_POST e req) = externalError message)
          \<and> status (fst (get_directions_POST e req)) = 502
          \<and> status (fst (get_directions_POST e req)) \<noteq> 400)"
proof -
  have 1: "status (fst (get_directions_POST e req)) = 400
      \<longleftrightarrow> \<not> is_coordinate_object (gd_from_coords req) \<or> \<not> is_coordinate_object (gd_to_coords req)"
    unfolding get_directions_400_iff using checked_coords_iff by blast
  have 2: "\<exists>message. fst (get_directions_POST e req) = externalError message"
    if v: "is_coordinate_object (gd_from_coords req)" "is_coordinate_object (gd_to_coords req)"
      and c: "snd (get_directions_POST e req) = [call]" "directions_fetch e call = Resolves d"
      and m: "dir_status d \<noteq> ''OK'' \<or> first_route d = None
             \<or> (\<exists>r. first_route d = Some r
                    \<and> (first_leg r = None \<or> route_overview_polyline_points r = None))"
  proof -
    obtain f t travel where r: "fst (get_directions_POST e req) = directions_response f t travel d"
      using get_directions_provider_answer [OF v c] by blast
    show ?thesis
      using m unfolding r directions_response_alt
      by (auto split: option.splits)
  qed
  have 3: "status (fst (get_directions_POST e req)) = 502 \<and> status (fst (get_directions_POST e req)) \<noteq> 400"
    if "\<exists>message. fst (get_directions_POST e req) = externalError message"
    using that by (auto simp: externalError_def)
  show ?thesis
    using 1 2 3 by blast
qed

theorem get_directions_errors_witness:
  "is_coordinate_object (gd_from_coords example_directions_body)
   \<and> is_coordinate_object (gd_to_coords example_directions_body)
   \<and> snd (get_directions_POST example_env example_directions_body)
       = [DirectionsCall \<lparr>lat = 53.3498, lng = - 6.2603\<rparr> \<lparr>lat = 53.3448, lng = - 6.2548\<rparr>
            ''driving'' ''test-api-key'' None]
   \<and> directions_fetch example_env
         (DirectionsCall \<lparr>lat = 53.3498, lng = - 6.2603\<rparr> \<lparr>lat = 53.3448, lng = - 6.2548\<rparr>
            ''driving'' ''test-api-key'' None)
       = Resolves \<lparr> dir_status = ''ZERO_RESULTS'', dir_error_message = None, dir_routes = None \<rparr>
   \<and> status (fst (get_directions_POST example_env example_directions_body)) = 502
   \<and> status (fst (get_directions_POST example_env (example_directions_body \<lparr> gd_to_coords := None \<rparr>))) = 400"
proof -
  have r: "get_directions_POST example_env example_directions_body
      = (externalError ''Directions API error: ZERO_RESULTS'',
         [DirectionsCall \<lparr>lat = 53.3498, lng = - 6.2603\<rparr> \<lparr>lat = 53.3448, lng = - 6.2548\<rparr>
            ''driving'' ''test-api-key'' None])"
    by (simp add: get_directions_POST_def example_directions_body_def example_env_def
          example_coords_def checked_coords_def number_member_def or_else_def
          directions_call_def example_directions_def directions_response_def)
  have f: "directions_fetch example_env
         (DirectionsCall \<lparr>lat = 53.3498, lng = - 6.2603\<rparr> \<lparr>lat = 53.3448, lng = - 6.2548\<rparr>
            ''driving'' ''test-api-key'' None)
       = Resolves \<lparr> dir_status = ''ZERO_RESULTS'', dir_error_message = None, dir_routes = None \<rparr>"
    by (simp add: example_env_def example_directions_def)
  have v: "is_coordinate_object (gd_from_coords example_directions_body)"
      "is_coordinate_object (gd_to_coords example_directions_body)"
      "\<not> is_coordinate_object (gd_to_coords (example_directions_body \<lparr> gd_to_coords := None \<rparr>))"
    by (simp_all add: example_directions_body_def example_coords_def)
  show ?thesis
    using get_directions_errors [of example_env example_directions_body
            "DirectionsCall \<lparr>lat = 53.3498, lng = - 6.2603\<rparr> \<lparr>lat = 53.3448, lng = - 6.2548\<rparr>
               ''driving'' ''test-api-key'' None"
            "\<lparr> dir_status = ''ZERO_RESULTS'', dir_error_message = None, dir_routes = None \<rparr>"]
          get_directions_errors [of example_env "example_directions_body \<lparr> gd_to_coords := None \<rparr>"]
          r f v
    by simp
qed

section \<open>The polyline decoder against the encoder\<close>

subsection \<open>Reading the groups of five bits\<close>

lemma chunk_split_nat: "(n mod 32) OR push_bit 5 (n div 32) = (n::nat)"
proof -
  have "take_bit 5 n OR push_bit 5 (drop_bit 5 n) = n"
  proof (rule bit_eqI)
    fix k
    show "bit (take_bit 5 n OR push_bit 5 (drop_bit 5 n)) k \<longleftrightarrow> bit n k"
    proof (cases "k < 5")
      case True
      then show ?thesis by (simp add: bit_simps)
    next
      case False
      then have "5 + (k - 5) = k" by simp
      then show ?thesis using False by (simp add: bit_simps)
    qed
  qed
  then show ?thesis by (simp add: take_bit_eq_mod drop_bit_eq_div)
qed

lemma chunk_split_word:
  "push_bit s (word_of_nat (n mod 32) :: 32 word) OR push_bit (s + 5) (word_of_nat (n div 32))
   = push_bit s (word_of_nat n)"
proof -
  have "(word_of_nat n :: 32 word) = word_of_nat ((n mod 32) OR push_bit 5 (n div 32))"
    by (simp only: chunk_split_nat)
  also have "\<dots> = word_of_nat (n mod 32) OR push_bit 5 (word_of_nat (n div 32))"
    by (simp only: of_nat_or_eq of_nat_push_bit)
  finally have "push_bit s (word_of_nat n :: 32 word)
      = push_bit s (word_of_nat (n mod 32) OR push_bit 5 (word_of_nat (n div 32)))"
    by simp
  then show ?thesis by (simp add: add.commute)
qed

lemma low_bits_int: "m < 32 \<Longrightarrow> (32 + int m) AND 31 = int m"
proof -
  assume m: "m < 32"
  have "(32 + int m) AND 31 = take_bit 5 (32 + int m)"
    by (simp add: take_bit_eq_mask mask_eq_exp_minus_1)
  also have "\<dots> = int m" using m by (simp add: take_bit_eq_mod)
  finally show ?thesis .
qed

lemma low_bits_int': "m < 32 \<Longrightarrow> int m AND 31 = int m"
proof -
  assume m: "m < 32"
  have "int m AND 31 = take_bit 5 (int m)"
    by (simp add: take_bit_eq_mask mask_eq_exp_minus_1)
  also have "\<dots> = int m" using m by (simp add: take_bit_eq_mod)
  finally show ?thesis .
qed

lemma read_chunks_continue:
  assumes "int (of_char ch :: nat) - 63 = 32 + int m" and "m < 32" and "s \<le> 31"
  shows "read_chunks (ch # cs) s r = read_chunks cs (s + 5) (r OR push_bit s (word_of_nat m))"
proof -
  have "s mod 32 = s" using assms(3) by simp
  then show ?thesis
    unfolding read_chunks.simps Let_def assms(1) low_bits_int [OF assms(2)]
    by simp
qed

lemma read_chunks_last:
  assumes "int (of_char ch :: nat) - 63 = int m" and "m < 32" and "s \<le> 31"
  shows "read_chunks (ch # cs) s r = (r OR push_bit s (word_of_nat m), cs)"
proof -
  have "s mod 32 = s" using assms(3) by simp
  then show ?thesis
    unfolding read_chunks.simps Let_def assms(1) low_bits_int' [OF assms(2)]
    using assms(2) by simp
qed

lemma read_encode_chunks:
  "s \<le> 31 \<Longrightarrow> n < 2 ^ (31 - s) \<Longrightarrow>
   read_chunks (encode_chunks n @ rest) s r = (r OR push_bit s (word_of_nat n), rest)"
proof (induction n arbitrary: s r rule: encode_chunks.induct)
  case (1 n)
  show ?case
  proof (cases "n \<ge> 32")
    case True
    have lt: "n mod 32 < 32" by simp
    have c: "int (of_char (char_of (32 + n mod 32 + 63 :: nat)) :: nat) - 63 = 32 + int (n mod 32)"
      using lt by simp
    have "(2::nat) ^ 5 < 2 ^ (31 - s)"
      using True 1(3) by simp
    then have "5 < 31 - s" by (simp only: power_strict_increasing_iff rel_simps)
    then have s5: "s + 5 \<le> 31" by simp
    have "(2::nat) ^ (31 - s) = 2 ^ (31 - (s + 5)) * 32"
    proof -
      have "31 - s = (31 - (s + 5)) + 5" using s5 by simp
      then have "(2::nat) ^ (31 - s) = 2 ^ (31 - (s + 5)) * 2 ^ 5"
        by (metis power_add)
      then show ?thesis by simp
    qed
    then have n5: "n div 32 < 2 ^ (31 - (s + 5))"
      using 1(3) by (simp add: div_less_iff_less_mult)
    have enc: "encode_chunks n = char_of (32 + n mod 32 + 63) # encode_chunks (n div 32)"
      using True by (subst encode_chunks.simps) simp
    have "read_chunks (encode_chunks n @ rest) s r
        = read_chunks (encode_chunks (n div 32) @ rest) (s + 5)
            (r OR push_bit s (word_of_nat (n mod 32)))"
      unfolding enc append_Cons by (rule read_chunks_continue [OF c lt 1(2)])
    also have "\<dots> = ((r OR push_bit s (word_of_nat (n mod 32)))
                      OR push_bit (s + 5) (word_of_nat (n div 32)), rest)"
      by (rule "1.IH" [OF True s5 n5])
    also have "\<dots> = (r OR push_bit s (word_of_nat n), rest)"
      by (simp only: or.assoc chunk_split_word)
    finally show ?thesis .
  next
    case False
    then have lt: "n < 32" by simp
    have c: "int (of_char (char_of (n + 63 :: nat)) :: nat) - 63 = int n"
      using lt by simp
    have enc: "encode_chunks n = [char_of (n + 63)]"
      using False by (subst encode_chunks.simps) simp
    show ?thesis
      unfolding enc append_Cons append_Nil by (rule read_chunks_last [OF c lt 1(2)])
  qed
qed

lemma read_encode_value:
  assumes "n < 2 ^ 31"
  shows "read_chunks (encode_chunks n @ rest) 0 0 = (word_of_nat n, rest)"
  using read_encode_chunks [of 0 n rest 0] assms by simp

lemma encode_chunks_not_Nil: "encode_chunks n \<noteq> []"
  by (subst encode_chunks.simps) simp

subsection \<open>The sign of a difference\<close>

lemma sint_small_nat:
  assumes "n < 2 ^ 31"
  shows "sint (word_of_nat n :: 32 word) = int n"
proof -
  have "int n < 2 ^ 31" using assms by (metis of_nat_less_iff of_nat_numeral of_nat_power)
  then have "signed_take_bit 31 (int n) = int n"
    by (simp add: signed_take_bit_int_eq_self)
  then show ?thesis by (simp add: signed_of_nat)
qed

lemma odd_word_of_nat: "odd (word_of_nat n :: 32 word) \<longleftrightarrow> odd n"
  by (simp add: even_word_iff unsigned_of_nat take_bit_eq_mod)

lemma delta_of_zigzag:
  assumes "- (2 ^ 30) \<le> v" and "v < 2 ^ 30"
  shows "delta_of (word_of_nat (zigzag v)) = v"
proof (cases "v < 0")
  case False
  then have z: "zigzag v = 2 * nat v" by (simp add: zigzag_def nat_mult_distrib)
  have lt: "zigzag v < 2 ^ 31"
    using assms(2) False unfolding z by (simp add: nat_less_iff)
  have s: "sint (word_of_nat (zigzag v) :: 32 word) = 2 * v"
    using sint_small_nat [OF lt] False by (simp add: z)
  have "even (word_of_nat (zigzag v) :: 32 word)"
    unfolding odd_word_of_nat z by simp
  then have ev: "(word_of_nat (zigzag v) :: 32 word) AND 1 = 0"
    unfolding and_one_eq by (simp only: even_iff_mod_2_eq_zero)
  have "sint (signed_drop_bit 1 (word_of_nat (zigzag v) :: 32 word)) = v"
    by (simp add: sint_signed_drop_bit_eq s drop_bit_eq_div)
  then show ?thesis by (simp add: delta_of_def ev)
next
  case True
  then have z: "zigzag v = 2 * nat (- v - 1) + 1" by (simp add: zigzag_def nat_mult_distrib) 
  have lt: "zigzag v < 2 ^ 31"
    using assms(1) True unfolding z by (simp add: nat_less_iff)
  have s: "sint (word_of_nat (zigzag v) :: 32 word) = 2 * (- v - 1) + 1"
    using sint_small_nat [OF lt] True by (simp add: z)
  have "odd (word_of_nat (zigzag v) :: 32 word)"
    unfolding odd_word_of_nat z by simp
  then have od: "(word_of_nat (zigzag v) :: 32 word) AND 1 \<noteq> 0"
    unfolding and_one_eq by (simp only: even_iff_mod_2_eq_zero not_False_eq_True)
  have d: "sint (signed_drop_bit 1 (word_of_nat (zigzag v) :: 32 word)) = - v - 1"
    by (simp add: sint_signed_drop_bit_eq s drop_bit_eq_div)
  have "sint (NOT (signed_drop_bit 1 (word_of_nat (zigzag v) :: 32 word)))
      = signed_take_bit 32 (NOT (- v - 1))"
    unfolding signed_not_eq d by simp
  also have "\<dots> = signed_take_bit 32 v" by (simp add: not_int_def)
  also have "\<dots> = v"
    using assms by (simp add: signed_take_bit_int_eq_self)
  finally show ?thesis by (simp add: delta_of_def od)
qed

subsection \<open>The round trip\<close>

lemma zigzag_bound:
  assumes "- (2 ^ 30) \<le> v" and "v < 2 ^ 30"
  shows "zigzag v < 2 ^ 31"
  using assms by (simp add: zigzag_def nat_less_iff)

lemma read_delta:
  assumes "- (2 ^ 30) \<le> v" and "v < 2 ^ 30"
  shows "read_chunks (encode_value v @ rest) 0 0 = (word_of_nat (zigzag v), rest)"
  unfolding encode_value_def
  by (rule read_encode_value [OF zigzag_bound [OF assms]])

lemma encode_value_not_Nil: "encode_value v \<noteq> []"
  by (simp add: encode_value_def encode_chunks_not_Nil)

lemma decode_loop_Nil: "decode_loop [] a b = []"
  by (subst decode_loop.simps) simp

lemma decode_loop_point:
  assumes va: "- (2 ^ 30) \<le> a - pl" "a - pl < 2 ^ 30"
    and vb: "- (2 ^ 30) \<le> b - pg" "b - pg < 2 ^ 30"
  shows "decode_loop (encode_value (a - pl) @ encode_value (b - pg) @ rest) pl pg
       = \<lparr> lat = real_of_int a / 100000, lng = real_of_int b / 100000 \<rparr> # decode_loop rest a b"
proof -
  show ?thesis
    by (subst decode_loop.simps)
       (simp add: encode_value_not_Nil read_delta [OF va] read_delta [OF vb]
          delta_of_zigzag [OF va] delta_of_zigzag [OF vb] del: append_assoc)
qed

lemma decode_encode_from:
  assumes "\<forall>p \<in> set ps. on_grid (lat p) \<and> on_grid (lng p)
             \<and> \<bar>round (lat p * 100000)\<bar> < 2 ^ 29 \<and> \<bar>round (lng p * 100000)\<bar> < 2 ^ 29"
    and "\<bar>pl\<bar> < 2 ^ 29" and "\<bar>pg\<bar> < 2 ^ 29"
  shows "decode_loop (encode_from pl pg ps) pl pg = ps"
  using assms
proof (induction ps arbitrary: pl pg)
  case Nil
  show ?case by (simp add: decode_loop_Nil)
next
  case (Cons p ps)
  define a where "a = round (lat p * 100000)"
  define b where "b = round (lng p * 100000)"
  have ga: "real_of_int a = lat p * 100000" and gb: "real_of_int b = lng p * 100000"
    and ba: "\<bar>a\<bar> < 2 ^ 29" and bb: "\<bar>b\<bar> < 2 ^ 29"
    using Cons.prems(1) by (simp_all add: on_grid_def a_def b_def)
  have va: "- (2 ^ 30) \<le> a - pl" "a - pl < 2 ^ 30"
    using ba Cons.prems(2) by simp_all
  have vb: "- (2 ^ 30) \<le> b - pg" "b - pg < 2 ^ 30"
    using bb Cons.prems(3) by simp_all
  have rest: "decode_loop (encode_from a b ps) a b = ps"
    using Cons.prems(1) ba bb by (intro Cons.IH) simp_all
  have pt: "\<lparr> lat = real_of_int a / 100000, lng = real_of_int b / 100000 \<rparr> = p"
    by (simp add: ga gb)
  have "encode_from pl pg (p # ps)
      = encode_value (a - pl) @ encode_value (b - pg) @ encode_from a b ps"
    by (simp add: a_def b_def Let_def)
  then show ?case
    by (simp only: decode_loop_point [OF va vb] rest pt)
qed

lemma round_abs_le:
  assumes "\<bar>x\<bar> \<le> real_of_int n"
  shows "\<bar>round x\<bar> \<le> n"
proof -
  have "round x \<le> round (real_of_int n)"
    using assms by (intro round_mono) simp
  then have hi: "round x \<le> n" by (simp only: round_of_int)
  have "round (real_of_int (- n)) \<le> round x"
    using assms by (intro round_mono) simp
  then have lo: "- n \<le> round x" by (simp only: round_of_int)
  show ?thesis using hi lo by simp
qed

lemma wgs84_scaled:
  assumes "wgs84 p"
  shows "\<bar>round (lat p * 100000)\<bar> < 2 ^ 29" and "\<bar>round (lng p * 100000)\<bar> < 2 ^ 29"
proof -
  have "\<bar>lat p * 100000\<bar> \<le> real_of_int 9000000"
    using assms by (simp add: wgs84_def abs_mult)
  then have "\<bar>round (lat p * 100000)\<bar> \<le> 9000000" by (rule round_abs_le)
  then show "\<bar>round (lat p * 100000)\<bar> < 2 ^ 29" by simp
  have "\<bar>lng p * 100000\<bar> \<le> real_of_int 18000000"
    using assms by (simp add: wgs84_def abs_mult)
  then have "\<bar>round (lng p * 100000)\<bar> \<le> 18000000" by (rule round_abs_le)
  then show "\<bar>round (lng p * 100000)\<bar> < 2 ^ 29" by simp
qed

text \<open>
  Claim C9. For every sequence of WGS84 coordinates whose values are multiples of
  \<open>1e-5\<close> degrees, \<open>decodePolyline\<close> applied to the encoded polyline of the sequence
  gives the sequence back (so each point is reproduced within \<open>1e-5\<close> degrees).
\<close>

theorem decodePolyline_roundtrip:
  assumes "\<forall>p \<in> set ps. wgs84 p \<and> on_grid (lat p) \<and> on_grid (lng p)"
  shows "decodePolyline (encodePolyline ps) = ps"
  unfolding decodePolyline_def encodePolyline_def
proof (rule decode_encode_from)
  show "\<forall>p \<in> set ps. on_grid (lat p) \<and> on_grid (lng p)
             \<and> \<bar>round (lat p * 100000)\<bar> < 2 ^ 29 \<and> \<bar>round (lng p * 100000)\<bar> < 2 ^ 29"
    using assms wgs84_scaled by blast
qed simp_all

lemma example_polyline:
  "encodePolyline [\<lparr>lat = 38.5, lng = - 120.2\<rparr>, \<lparr>lat = 40.7, lng = - 120.95\<rparr>,
                   \<lparr>lat = 43.252, lng = - 126.453\<rparr>]
   = ''_p~iF~ps|U_ulLnnqC_mqNvxq`@''"
  by (simp add: encodePolyline_def encode_value_def zigzag_def encode_chunks.simps char_of_eq_iff take_bit_eq_mod)

theorem decodePolyline_roundtrip_witness:
  "wgs84 \<lparr>lat = 38.5, lng = - 120.2\<rparr> \<and> on_grid 38.5 \<and> on_grid (- 120.2)
   \<and> wgs84 \<lparr>lat = 40.7, lng = - 120.95\<rparr> \<and> on_grid 40.7 \<and> on_grid (- 120.95)
   \<and> wgs84 \<lparr>lat = 43.252, lng = - 126.453\<rparr> \<and> on_grid 43.252 \<and> on_grid (- 126.453)
   \<and> decodePolyline ''_p~iF~ps|U_ulLnnqC_mqNvxq`@''
       = [\<lparr>lat = 38.5, lng = - 120.2\<rparr>, \<lparr>lat = 40.7, lng = - 120.95\<rparr>,
          \<lparr>lat = 43.252, lng = - 126.453\<rparr>]"
  using decodePolyline_roundtrip [of "[\<lparr>lat = 38.5, lng = - 120.2\<rparr>, \<lparr>lat = 40.7, lng = - 120.95\<rparr>,
                   \<lparr>lat = 43.252, lng = - 126.453\<rparr>]"]
  unfolding example_polyline
  by (simp add: wgs84_def on_grid_def)

end
